theory Spec2Isabelle
  imports Complex_Main "HOL-Library.Multiset"
begin

section \<open>Data model (types/product.ts)\<close>

text \<open>
  Stock levels and quantities are \<open>int\<close>; a money amount is the rational number its
  double denotes, a \<open>rat\<close>. Arithmetic on amounts is exact, except in
  \<open>getDailyTotals\<close>, which sums the same amounts in two orders and is modelled with
  binary64 addition. Instants (\<open>Date.now()\<close>, the ISO strings written by
  \<open>new Date().toISOString()\<close> and read back by \<open>new Date(s)\<close>) are the number of
  milliseconds since the epoch, a \<open>nat\<close>.
\<close>

datatype category = Electronics | Accessories | Peripherals | Storage | Furniture | Other

record product =
  p_barcode :: string
  p_name :: string
  p_price :: rat
  p_stock :: int
  p_category :: category

record cart_item =
  ci_product :: product
  ci_quantity :: int

record stock_log =
  sl_id :: string
  sl_barcode :: string
  sl_productName :: string
  sl_previousStock :: int
  sl_newStock :: int
  sl_quantityAdded :: int
  sl_timestamp :: nat
  sl_performedBy :: string

text \<open>\<open>PaymentMethod\<close>: 'cash', 'mobile_money' and 'card'.\<close>

datatype payment_method = Cash | Mobile_money | Card

record sale_item =
  si_barcode :: string
  si_name :: string
  si_price :: rat
  si_quantity :: int
  si_total :: rat

record sale_record =
  sr_id :: string
  sr_receiptNumber :: string
  sr_items :: "sale_item list"
  sr_subtotal :: rat
  sr_tax :: rat
  sr_total :: rat
  sr_paymentMethod :: payment_method
  sr_amountPaid :: rat
  sr_change :: rat
  sr_cashierName :: string
  sr_storeId :: string
  sr_storeName :: string
  sr_timestamp :: nat

datatype transfer_status = pending | completed | cancelled

text \<open>\<open>Omit<StockTransfer, 'id' | 'timestamp'>\<close>: what the caller of \<open>create\<close> supplies.\<close>

record transfer_request =
  tr_fromStoreId :: string
  tr_toStoreId :: string
  tr_fromStoreName :: string
  tr_toStoreName :: string
  tr_barcode :: string
  tr_productName :: string
  tr_quantity :: int
  tr_status :: transfer_status
  tr_requestedBy :: string
  tr_completedAt :: "nat option"

record stock_transfer =
  st_id :: string
  st_fromStoreId :: string
  st_toStoreId :: string
  st_fromStoreName :: string
  st_toStoreName :: string
  st_barcode :: string
  st_productName :: string
  st_quantity :: int
  st_status :: transfer_status
  st_requestedBy :: string
  st_completedAt :: "nat option"
  st_timestamp :: nat

text \<open>The collections kept in \<open>localStorage\<close>, one field per storage key.\<close>

record storage =
  products :: "product list"
  stock_logs :: "stock_log list"
  sales :: "sale_record list"
  stock_transfers :: "stock_transfer list"

text \<open>
  Every mutating service call returns \<open>{ success, error? }\<close>. A failure is \<open>Inl\<close> of
  the error, one constructor per message of the source:
  \<^item> \<open>QuantityMustBePositive\<close>: 'Quantity must be positive' (the spec's ValidationError);
  \<^item> \<open>ProductNotFound\<close>: 'Product not found' (NotFoundError);
  \<^item> \<open>NoItemsInCart\<close>: 'No items in cart' (EmptyCart);
  \<^item> \<open>InsufficientPayment\<close>: 'Insufficient payment amount';
  \<^item> \<open>SaleProductNotFound n\<close>: 'Product n not found';
  \<^item> \<open>InsufficientStock n k\<close>: 'Insufficient stock for n. Available: k';
  \<^item> \<open>TransferNotFound\<close>: 'Transfer not found';
  \<^item> \<open>TransferNotPending\<close>: 'Transfer is not pending' (StateError);
  \<^item> \<open>CanOnlyCancelPending\<close>: 'Can only cancel pending transfers' (StateError).
\<close>

datatype error =
    QuantityMustBePositive
  | ProductNotFound
  | NoItemsInCart
  | InsufficientPayment
  | SaleProductNotFound string
  | InsufficientStock string int
  | TransferNotFound
  | TransferNotPending
  | CanOnlyCancelPending

section \<open>JavaScript helpers\<close>

text \<open>\<open>Array.prototype.findIndex\<close>: the first index whose element satisfies the predicate;
  the source's \<open>-1\<close> is \<open>None\<close>.\<close>

fun findIndex :: "('a \<Rightarrow> bool) \<Rightarrow> 'a list \<Rightarrow> nat option" where
  "findIndex P [] = None"
| "findIndex P (x # xs) =
     (if P x then Some 0 else (case findIndex P xs of None \<Rightarrow> None | Some i \<Rightarrow> Some (Suc i)))"

text \<open>\<open>Number.prototype.toString(radix)\<close> on a non-negative integer, with the upper-case
  digits that \<open>toUpperCase()\<close> gives. The source calls it with the radix 10 (template
  strings) and 36 (receipt numbers) only.\<close>

definition digit_chars :: string where
  "digit_chars = ''0123456789ABCDEFGHIJKLMNOPQRSTUVWXYZ''"

function toStringRadix :: "nat \<Rightarrow> nat \<Rightarrow> string" where
  "toStringRadix r n =
     (if r < 2 \<or> n < r then [digit_chars ! n]
      else toStringRadix r (n div r) @ [digit_chars ! (n mod r)])"
  by pat_completeness auto
termination
  by (relation "measure snd") auto

declare toStringRadix.simps [simp del]

section \<open>ProductService\<close>

definition findByBarcode :: "storage \<Rightarrow> string \<Rightarrow> product option" where
  "findByBarcode s barcode = find (\<lambda>p. p_barcode p = barcode) (products s)"

text \<open>
  \<open>restock\<close>: \<open>products.find\<close> yields a reference into the array, so the assignment
  \<open>product.stock = newStock\<close> updates the first product with the barcode in place.
  \<open>now\<close> is the clock reading.
\<close>

definition restock :: "nat \<Rightarrow> string \<Rightarrow> int \<Rightarrow> string \<Rightarrow> storage \<Rightarrow> (error + unit) \<times> storage" where
  "restock now barcode quantity performedBy s =
     (if quantity \<le> 0 then (Inl QuantityMustBePositive, s)
      else
        (case findIndex (\<lambda>p. p_barcode p = barcode) (products s) of
           None \<Rightarrow> (Inl ProductNotFound, s)
         | Some i \<Rightarrow>
             (let product = products s ! i;
                  previousStock = p_stock product;
                  newStock = previousStock + quantity;
                  products' = (products s)[i := product\<lparr>p_stock := newStock\<rparr>];
                  log = \<lparr>sl_id = ''log-'' @ toStringRadix 10 now,
                         sl_barcode = barcode,
                         sl_productName = p_name product,
                         sl_previousStock = previousStock,
                         sl_newStock = newStock,
                         sl_quantityAdded = quantity,
                         sl_timestamp = now,
                         sl_performedBy = performedBy\<rparr>
              in (Inr (), s\<lparr>products := products', stock_logs := log # stock_logs s\<rparr>))))"

section \<open>SaleService\<close>

text \<open>\<open>generateReceiptNumber\<close>: \<open>rnd\<close> is the upper-cased three-character piece of
  \<open>Math.random().toString(36)\<close>.\<close>

definition generateReceiptNumber :: "nat \<Rightarrow> string \<Rightarrow> string" where
  "generateReceiptNumber now rnd = ''RCP-'' @ toStringRadix 36 now @ ''-'' @ rnd"

definition taxRate :: rat where
  "taxRate = 0"

text \<open>First loop of \<open>processSale\<close>: every line is checked against the product as stored;
  the first failing line ends the call.\<close>

fun checkStock :: "product list \<Rightarrow> sale_item list \<Rightarrow> error option" where
  "checkStock ps [] = None"
| "checkStock ps (item # items) =
     (case find (\<lambda>p. p_barcode p = si_barcode item) ps of
        None \<Rightarrow> Some (SaleProductNotFound (si_name item))
      | Some product \<Rightarrow>
          if p_stock product < si_quantity item
          then Some (InsufficientStock (si_name item) (p_stock product))
          else checkStock ps items)"

text \<open>Second loop: \<open>products[productIndex].stock -= item.quantity\<close>, line after line, on
  the same array.\<close>

fun deductStock :: "product list \<Rightarrow> sale_item list \<Rightarrow> product list" where
  "deductStock ps [] = ps"
| "deductStock ps (item # items) =
     (case findIndex (\<lambda>p. p_barcode p = si_barcode item) ps of
        None \<Rightarrow> deductStock ps items
      | Some productIndex \<Rightarrow>
          deductStock
            (ps[productIndex :=
                  (ps ! productIndex)\<lparr>p_stock := p_stock (ps ! productIndex) - si_quantity item\<rparr>])
            items)"

text \<open>\<open>processSale\<close>: a success carries the sale record and the change. \<open>now\<close> is the clock
  reading (the call reads the clock for the id, the receipt number and the time stamp;
  one reading stands for the three), \<open>rnd\<close> the random piece of the receipt number.\<close>

definition processSale ::
  "nat \<Rightarrow> string \<Rightarrow> sale_item list \<Rightarrow> payment_method \<Rightarrow> rat \<Rightarrow> string \<Rightarrow> string \<Rightarrow> string
     \<Rightarrow> storage \<Rightarrow> (error + sale_record \<times> rat) \<times> storage" where
  "processSale now rnd items paymentMethod amountPaid cashierName storeId storeName s =
     (if length items = 0 then (Inl NoItemsInCart, s)
      else
        (let subtotal = foldl (\<lambda>sum item. sum + si_total item) 0 items;
             tax = subtotal * taxRate;
             total = subtotal + tax
         in if amountPaid < total then (Inl InsufficientPayment, s)
            else
              (let change = amountPaid - total
               in case checkStock (products s) items of
                    Some e \<Rightarrow> (Inl e, s)
                  | None \<Rightarrow>
                      (let products' = deductStock (products s) items;
                           sale = \<lparr>sr_id = ''sale-'' @ toStringRadix 10 now,
                                   sr_receiptNumber = generateReceiptNumber now rnd,
                                   sr_items = items,
                                   sr_subtotal = subtotal,
                                   sr_tax = tax,
                                   sr_total = total,
                                   sr_paymentMethod = paymentMethod,
                                   sr_amountPaid = amountPaid,
                                   sr_change = change,
                                   sr_cashierName = cashierName,
                                   sr_storeId = storeId,
                                   sr_storeName = storeName,
                                   sr_timestamp = now\<rparr>
                       in (Inr (sale, change),
                           s\<lparr>products := products', sales := sale # sales s\<rparr>)))))"

definition getByStore :: "storage \<Rightarrow> string \<Rightarrow> sale_record list" where
  "getByStore s storeId = filter (\<lambda>sale. sr_storeId sale = storeId) (sales s)"

text \<open>\<open>getByDateRange\<close>: the optional \<open>storeId\<close> filters only when it is truthy, that is
  present and not the empty string.\<close>

definition getByDateRange :: "storage \<Rightarrow> nat \<Rightarrow> nat \<Rightarrow> string option \<Rightarrow> sale_record list" where
  "getByDateRange s startDate endDate storeId =
     (let salesList = (case storeId of
                         None \<Rightarrow> sales s
                       | Some sid \<Rightarrow> if sid = [] then sales s else getByStore s sid)
      in filter (\<lambda>sale. startDate \<le> sr_timestamp sale \<and> sr_timestamp sale \<le> endDate) salesList)"

subsection \<open>Binary64 addition\<close>

text \<open>
  \<open>getDailyTotals\<close> adds the same amounts in two different orders, so its additions
  are modelled as the code performs them: IEEE 754 binary64, round to nearest, ties to
  even. A finite double is the rational number it denotes. \<open>round64\<close> gives the double
  nearest to a rational (53 significant bits, least exponent \<open>-1074\<close>); it is also what a
  decimal literal such as \<open>29.99\<close> denotes. The result \<open>Infinity\<close>, which needs a sum
  of \<open>2^1024\<close> or more, is not modelled.
\<close>

function bitLength :: "nat \<Rightarrow> nat" where
  "bitLength n = (if n = 0 then 0 else Suc (bitLength (n div 2)))"
  by pat_completeness auto
termination
  by (relation "measure id") auto

declare bitLength.simps [simp del]

definition pow2 :: "int \<Rightarrow> rat" where
  "pow2 k = (if 0 \<le> k then 2 ^ nat k else 1 / 2 ^ nat (- k))"

text \<open>\<open>floorLog2 q\<close>, for \<open>q > 0\<close>, is the exponent \<open>k\<close> with \<open>2^k \<le> q < 2^(k+1)\<close>.\<close>

definition floorLog2 :: "rat \<Rightarrow> int" where
  "floorLog2 q =
     (if 1 \<le> q then int (bitLength (nat \<lfloor>q\<rfloor>)) - 1
      else - int (bitLength (nat (\<lceil>1 / q\<rceil> - 1))))"

definition roundHalfEven :: "rat \<Rightarrow> int" where
  "roundHalfEven x =
     (let m = \<lfloor>x\<rfloor>; r = x - of_int m
      in if r < 1 / 2 then m else if 1 / 2 < r then m + 1 else if even m then m else m + 1)"

definition round64 :: "rat \<Rightarrow> rat" where
  "round64 q =
     (if q = 0 then 0
      else
        (let e = max (floorLog2 \<bar>q\<bar> - 52) (- 1074)
         in sgn q * of_int (roundHalfEven (\<bar>q\<bar> / pow2 e)) * pow2 e))"

text \<open>The \<open>+\<close> of two doubles.\<close>

definition fadd :: "rat \<Rightarrow> rat \<Rightarrow> rat" where
  "fadd x y = round64 (x + y)"

subsection \<open>Daily totals\<close>

record pm_totals =
  pm_count :: nat
  pm_amount :: rat

record daily_totals =
  totalSales :: nat
  totalRevenue :: rat
  totalItems :: int
  byPaymentMethod :: "payment_method \<Rightarrow> pm_totals"

text \<open>The body of the loop of \<open>getDailyTotals\<close>, on the pair of \<open>byPaymentMethod\<close> and
  \<open>totalItems\<close>.\<close>

definition dailyStep ::
  "(payment_method \<Rightarrow> pm_totals) \<times> int \<Rightarrow> sale_record \<Rightarrow> (payment_method \<Rightarrow> pm_totals) \<times> int" where
  "dailyStep acc sale =
     (let bpm = fst acc; m = sr_paymentMethod sale
      in (bpm(m := \<lparr>pm_count = pm_count (bpm m) + 1,
                     pm_amount = fadd (pm_amount (bpm m)) (sr_total sale)\<rparr>),
          snd acc + foldl (\<lambda>sum item. sum + si_quantity item) 0 (sr_items sale)))"

text \<open>\<open>getDailyTotals\<close>: \<open>startOfDay\<close> and \<open>endOfDay\<close> stand for \<open>setHours(0, 0, 0, 0)\<close>
  and \<open>setHours(23, 59, 59, 999)\<close> in the local time zone of the browser. The amounts
  are doubles, added with \<open>fadd\<close>; the counts are integers.\<close>

definition getDailyTotals ::
  "(nat \<Rightarrow> nat) \<Rightarrow> (nat \<Rightarrow> nat) \<Rightarrow> storage \<Rightarrow> nat \<Rightarrow> string option \<Rightarrow> daily_totals" where
  "getDailyTotals startOfDay endOfDay s date storeId =
     (let salesList = getByDateRange s (startOfDay date) (endOfDay date) storeId;
          acc = foldl dailyStep (\<lambda>m. \<lparr>pm_count = 0, pm_amount = 0\<rparr>, 0) salesList
      in \<lparr>totalSales = length salesList,
          totalRevenue = foldl (\<lambda>sum sale. fadd sum (sr_total sale)) 0 salesList,
          totalItems = snd acc,
          byPaymentMethod = fst acc\<rparr>)"

section \<open>StockTransferService\<close>

text \<open>\<open>create\<close>: the spread \<open>...transfer\<close> copies every field of the request, the status
  among them; \<open>id\<close> and \<open>timestamp\<close> are added.\<close>

definition create :: "nat \<Rightarrow> transfer_request \<Rightarrow> storage \<Rightarrow> (error + unit) \<times> storage" where
  "create now transfer s =
     (let newTransfer = \<lparr>st_id = ''transfer-'' @ toStringRadix 10 now,
                          st_fromStoreId = tr_fromStoreId transfer,
                          st_toStoreId = tr_toStoreId transfer,
                          st_fromStoreName = tr_fromStoreName transfer,
                          st_toStoreName = tr_toStoreName transfer,
                          st_barcode = tr_barcode transfer,
                          st_productName = tr_productName transfer,
                          st_quantity = tr_quantity transfer,
                          st_status = tr_status transfer,
                          st_requestedBy = tr_requestedBy transfer,
                          st_completedAt = tr_completedAt transfer,
                          st_timestamp = now\<rparr>
      in (Inr (), s\<lparr>stock_transfers := stock_transfers s @ [newTransfer]\<rparr>))"

definition complete :: "nat \<Rightarrow> string \<Rightarrow> storage \<Rightarrow> (error + unit) \<times> storage" where
  "complete now transferId s =
     (let transfers = stock_transfers s
      in case findIndex (\<lambda>t. st_id t = transferId) transfers of
           None \<Rightarrow> (Inl TransferNotFound, s)
         | Some index \<Rightarrow>
             if st_status (transfers ! index) \<noteq> pending then (Inl TransferNotPending, s)
             else (Inr (),
                   s\<lparr>stock_transfers :=
                       transfers[index := (transfers ! index)
                                   \<lparr>st_status := completed, st_completedAt := Some now\<rparr>]\<rparr>))"

definition cancel :: "string \<Rightarrow> storage \<Rightarrow> (error + unit) \<times> storage" where
  "cancel transferId s =
     (let transfers = stock_transfers s
      in case findIndex (\<lambda>t. st_id t = transferId) transfers of
           None \<Rightarrow> (Inl TransferNotFound, s)
         | Some index \<Rightarrow>
             if st_status (transfers ! index) \<noteq> pending then (Inl CanOnlyCancelPending, s)
             else (Inr (),
                   s\<lparr>stock_transfers :=
                       transfers[index := (transfers ! index)\<lparr>st_status := cancelled\<rparr>]\<rparr>))"

section \<open>CashierView: the cart\<close>

text \<open>
  What \<open>handleScan\<close> shows, one constructor per toast:
  \<^item> \<open>NotRegistered\<close>: 'Product not registered! Please check the barcode.' (error);
  \<^item> \<open>StockLimitExceeded n k\<close>: 'Cannot add more n. Only k in stock!' (error);
  \<^item> \<open>OutOfStock n\<close>: 'n is out of stock!' (error);
  \<^item> \<open>AddedOneMore n\<close>: 'Added one more n to cart' (success);
  \<^item> \<open>AddedToCart n\<close>: 'n added to cart' (success).
\<close>

datatype scan_notice =
    NotRegistered
  | StockLimitExceeded string int
  | OutOfStock string
  | AddedOneMore string
  | AddedToCart string

text \<open>\<open>handleScan\<close> on the cart state: the notice shown and the cart afterwards.\<close>

definition handleScan :: "storage \<Rightarrow> cart_item list \<Rightarrow> string \<Rightarrow> scan_notice \<times> cart_item list" where
  "handleScan s cart barcode =
     (case findByBarcode s barcode of
        None \<Rightarrow> (NotRegistered, cart)
      | Some product \<Rightarrow>
          (case find (\<lambda>item. p_barcode (ci_product item) = barcode) cart of
             Some existingItem \<Rightarrow>
               if ci_quantity existingItem \<ge> p_stock product
               then (StockLimitExceeded (p_name product) (p_stock product), cart)
               else (AddedOneMore (p_name product),
                     map (\<lambda>item. if p_barcode (ci_product item) = barcode
                                  then item\<lparr>ci_quantity := ci_quantity item + 1\<rparr>
                                  else item) cart)
           | None \<Rightarrow>
               if p_stock product = 0 then (OutOfStock (p_name product), cart)
               else (AddedToCart (p_name product),
                     cart @ [\<lparr>ci_product = product, ci_quantity = 1\<rparr>])))"

section \<open>AnalyticsDashboard\<close>

subsection \<open>Objects used as dictionaries\<close>

text \<open>
  A JavaScript object with string keys is the list of its properties in creation order.
  Reading a missing key gives \<open>undefined\<close> (\<open>None\<close>); assigning to an existing key keeps
  its place, assigning to a new key adds it last.
\<close>

type_synonym 'v js_object = "(string \<times> 'v) list"

definition obj_get :: "'v js_object \<Rightarrow> string \<Rightarrow> 'v option" where
  "obj_get obj k = map_of obj k"

fun obj_set :: "string \<Rightarrow> 'v \<Rightarrow> 'v js_object \<Rightarrow> 'v js_object" where
  "obj_set k v [] = [(k, v)]"
| "obj_set k v (e # obj) = (if fst e = k then (k, v) # obj else e # obj_set k v obj)"

text \<open>
  \<open>Object.values\<close> lists the array-index keys first, in ascending numeric order, then
  the other keys in creation order. A key is an array index when it is the decimal
  numeral of a number below \<open>2^32 - 1\<close>.
\<close>

fun parseDigits :: "nat \<Rightarrow> string \<Rightarrow> nat option" where
  "parseDigits acc [] = Some acc"
| "parseDigits acc (c # cs) =
     (case findIndex (\<lambda>d. d = c) ''0123456789'' of
        None \<Rightarrow> None
      | Some d \<Rightarrow> parseDigits (10 * acc + d) cs)"

definition arrayIndex :: "string \<Rightarrow> nat option" where
  "arrayIndex k =
     (case parseDigits 0 k of
        None \<Rightarrow> None
      | Some n \<Rightarrow> if n < 4294967295 \<and> toStringRadix 10 n = k then Some n else None)"

definition objectValues :: "'v js_object \<Rightarrow> 'v list" where
  "objectValues obj =
     map snd
       (sort_key (\<lambda>e. case arrayIndex (fst e) of None \<Rightarrow> 0 | Some n \<Rightarrow> n)
          (filter (\<lambda>e. arrayIndex (fst e) \<noteq> None) obj)
        @ filter (\<lambda>e. arrayIndex (fst e) = None) obj)"

subsection \<open>Sales forecast\<close>

record forecast_result =
  averageDaily :: rat
  predictedWeekly :: rat
  next7Days :: "(string \<times> rat) list"

text \<open>\<open>dailySales\<close>: revenue per \<open>toDateString()\<close> of the sale's time stamp. The read
  \<open>dailySales[date] || 0\<close> is the stored number, or 0 when there is none.\<close>

definition dailySales :: "(nat \<Rightarrow> string) \<Rightarrow> sale_record list \<Rightarrow> rat js_object" where
  "dailySales toDateString filteredSales =
     foldl (\<lambda>obj sale.
              (let date = toDateString (sr_timestamp sale)
               in obj_set date
                    ((case obj_get obj date of None \<Rightarrow> 0 | Some v \<Rightarrow> v) + sr_total sale) obj))
       [] filteredSales"

text \<open>\<open>forecast\<close>: \<open>null\<close> is \<open>None\<close>; \<open>random i\<close> is the result of the \<open>i\<close>-th call of
  \<open>Math.random()\<close>; \<open>toDateString\<close> names the local calendar day of an instant.\<close>

definition forecast ::
  "(nat \<Rightarrow> string) \<Rightarrow> (nat \<Rightarrow> rat) \<Rightarrow> sale_record list \<Rightarrow> forecast_result option" where
  "forecast toDateString random filteredSales =
     (if length filteredSales < 7 then None
      else
        (let dailyValues = objectValues (dailySales toDateString filteredSales);
             average = foldl (\<lambda>a b. a + b) 0 dailyValues / of_nat (length dailyValues)
         in Some \<lparr>averageDaily = average,
                  predictedWeekly = average * 7,
                  next7Days =
                    map (\<lambda>i. (''Day '' @ toStringRadix 10 (i + 1),
                               average * (1 + (random i * (2 / 10) - 1 / 10))))
                      [0..<7]\<rparr>))"

text \<open>The spec's words for the same numbers: one revenue bucket per calendar day that has
  a sale, and the arithmetic mean of a list.\<close>

definition dayBuckets :: "(nat \<Rightarrow> string) \<Rightarrow> sale_record list \<Rightarrow> rat list" where
  "dayBuckets toDateString window =
     map (\<lambda>d. sum_list (map sr_total
                 (filter (\<lambda>sale. toDateString (sr_timestamp sale) = d) window)))
       (remdups (map (\<lambda>sale. toDateString (sr_timestamp sale)) window))"

definition arithmeticMean :: "rat list \<Rightarrow> rat" where
  "arithmeticMean xs = sum_list xs / of_nat (length xs)"

subsection \<open>Restock recommendations\<close>

text \<open>A number that may be \<open>Infinity\<close>, ordered as JavaScript compares them.\<close>

datatype jsnum = Num rat | Infinity

instantiation jsnum :: linorder
begin

fun less_eq_jsnum :: "jsnum \<Rightarrow> jsnum \<Rightarrow> bool" where
  "less_eq_jsnum (Num a) (Num b) = (a \<le> b)"
| "less_eq_jsnum (Num a) Infinity = True"
| "less_eq_jsnum Infinity (Num b) = False"
| "less_eq_jsnum Infinity Infinity = True"

definition less_jsnum :: "jsnum \<Rightarrow> jsnum \<Rightarrow> bool" where
  "less_jsnum x y = (x \<le> y \<and> \<not> y \<le> x)"

instance
proof
  fix x y z :: jsnum
  show "x < y \<longleftrightarrow> x \<le> y \<and> \<not> y \<le> x"
    by (simp add: less_jsnum_def)
  show "x \<le> x"
    by (cases x) simp_all
  show "x \<le> y \<Longrightarrow> y \<le> z \<Longrightarrow> x \<le> z"
    by (cases x; cases y; cases z) simp_all
  show "x \<le> y \<Longrightarrow> y \<le> x \<Longrightarrow> x = y"
    by (cases x; cases y) simp_all
  show "x \<le> y \<or> y \<le> x"
    by (cases x; cases y) auto
qed

end

record product_sales =
  ps_name :: string
  ps_sold :: int
  ps_currentStock :: int

record recommendation =
  rc_name :: string
  rc_sold :: int
  rc_currentStock :: int
  rc_dailyVelocity :: rat
  rc_daysRemaining :: jsnum

text \<open>\<open>productSales[k].sold += q\<close> on a key that is present.\<close>

definition obj_addSold :: "string \<Rightarrow> int \<Rightarrow> product_sales js_object \<Rightarrow> product_sales js_object" where
  "obj_addSold k q obj =
     map (\<lambda>e. if fst e = k then (fst e, (snd e)\<lparr>ps_sold := ps_sold (snd e) + q\<rparr>) else e) obj"

text \<open>
  \<open>productSales\<close> is a plain object, so a read \<open>productSales[k]\<close> of a key that was
  never set still finds the members inherited from \<open>Object.prototype\<close>, all of them
  truthy. These are their names.
\<close>

definition objectPrototypeKeys :: "string list" where
  "objectPrototypeKeys =
     [''constructor'', ''__defineGetter__'', ''__defineSetter__'', ''hasOwnProperty'',
      ''__lookupGetter__'', ''__lookupSetter__'', ''isPrototypeOf'', ''propertyIsEnumerable'',
      ''toString'', ''valueOf'', ''__proto__'', ''toLocaleString'']"

text \<open>The body of the inner \<open>forEach\<close>: \<open>product?.stock || 0\<close> is the stock of the first
  product with the barcode, or 0 when there is none. For a barcode that names an
  inherited member the test \<open>!productSales[item.barcode]\<close> is false, no entry is made, and
  \<open>.sold += item.quantity\<close> lands on the inherited member: the object keeps its own
  properties as they were.\<close>

definition addItem :: "product list \<Rightarrow> product_sales js_object \<Rightarrow> sale_item \<Rightarrow> product_sales js_object" where
  "addItem ps productSales item =
     (let created =
            (case obj_get productSales (si_barcode item) of
               Some e \<Rightarrow> productSales
             | None \<Rightarrow>
                 if si_barcode item \<in> set objectPrototypeKeys then productSales
                 else
                 obj_set (si_barcode item)
                   \<lparr>ps_name = si_name item,
                    ps_sold = 0,
                    ps_currentStock =
                      (case find (\<lambda>p. p_barcode p = si_barcode item) ps of
                         None \<Rightarrow> 0
                       | Some product \<Rightarrow> p_stock product)\<rparr>
                   productSales)
      in obj_addSold (si_barcode item) (si_quantity item) created)"

definition productSalesOf :: "product list \<Rightarrow> sale_record list \<Rightarrow> product_sales js_object" where
  "productSalesOf ps salesList =
     foldl (\<lambda>obj sale. foldl (addItem ps) obj (sr_items sale)) [] salesList"

definition withVelocity :: "product_sales \<Rightarrow> recommendation" where
  "withVelocity p =
     (let dailyVelocity = of_int (ps_sold p) / 30
      in \<lparr>rc_name = ps_name p,
          rc_sold = ps_sold p,
          rc_currentStock = ps_currentStock p,
          rc_dailyVelocity = dailyVelocity,
          rc_daysRemaining =
            (if dailyVelocity > 0 then Num (of_int (ps_currentStock p) / dailyVelocity)
             else Infinity)\<rparr>)"

definition needsRestock :: "recommendation \<Rightarrow> bool" where
  "needsRestock p \<longleftrightarrow> rc_daysRemaining p < Num 14 \<or> rc_currentStock p < 10"

text \<open>\<open>recommendations\<close>: \<open>sort\<close> is stable and its comparator, the difference of two
  \<open>daysRemaining\<close>, orders as \<open>jsnum\<close> does (two infinities compare as equal).\<close>

definition recommendations :: "product list \<Rightarrow> sale_record list \<Rightarrow> recommendation list" where
  "recommendations ps salesList =
     take 5
       (sort_key rc_daysRemaining
          (filter needsRestock
             (map withVelocity (objectValues (productSalesOf ps salesList)))))"

text \<open>The quantity shown with each entry: \<open>Math.ceil(item.sold * 2)\<close>.\<close>

definition suggestedRestock :: "recommendation \<Rightarrow> int" where
  "suggestedRestock item = \<lceil>(of_int (rc_sold item) :: rat) * 2\<rceil>"

text \<open>The spec's words: the products sold in the window, the units sold of each, its
  current stock and its days of inventory remaining.\<close>

definition windowItems :: "sale_record list \<Rightarrow> sale_item list" where
  "windowItems window = concat (map sr_items window)"

definition unitsSold :: "sale_record list \<Rightarrow> string \<Rightarrow> int" where
  "unitsSold window b =
     sum_list (map si_quantity (filter (\<lambda>i. si_barcode i = b) (windowItems window)))"

definition currentStock :: "product list \<Rightarrow> string \<Rightarrow> int" where
  "currentStock ps b =
     (case find (\<lambda>p. p_barcode p = b) ps of None \<Rightarrow> 0 | Some product \<Rightarrow> p_stock product)"

definition daysRemaining :: "product list \<Rightarrow> sale_record list \<Rightarrow> string \<Rightarrow> jsnum" where
  "daysRemaining ps window b =
     (if unitsSold window b > 0
      then Num (of_int (currentStock ps b) / (of_int (unitsSold window b) / 30))
      else Infinity)"

definition flagged :: "product list \<Rightarrow> sale_record list \<Rightarrow> string \<Rightarrow> bool" where
  "flagged ps window b \<longleftrightarrow> daysRemaining ps window b < Num 14 \<or> currentStock ps b < 10"

text \<open>An entry of the list describes the product with barcode \<open>b\<close>.\<close>

definition describes :: "product list \<Rightarrow> sale_record list \<Rightarrow> recommendation \<Rightarrow> string \<Rightarrow> bool" where
  "describes ps window e b \<longleftrightarrow>
     rc_sold e = unitsSold window b \<and>
     rc_currentStock e = currentStock ps b \<and>
     rc_dailyVelocity e = of_int (unitsSold window b) / 30 \<and>
     rc_daysRemaining e = daysRemaining ps window b"

text \<open>The products the spec flags: those sold in the window with fewer than 14 days of
  inventory remaining or fewer than 10 units in stock.\<close>

definition flaggedProducts :: "product list \<Rightarrow> sale_record list \<Rightarrow> string list" where
  "flaggedProducts ps window =
     filter (flagged ps window) (remdups (map si_barcode (windowItems window)))"

subsection \<open>Notions used in the proofs\<close>

text \<open>The revenue of one calendar day of a window.\<close>

definition bucket :: "(nat \<Rightarrow> string) \<Rightarrow> sale_record list \<Rightarrow> string \<Rightarrow> rat" where
  "bucket toDateString window d =
     sum_list (map sr_total (filter (\<lambda>sale. toDateString (sr_timestamp sale) = d) window))"

text \<open>The units of one barcode on a list of lines.\<close>

definition soldOf :: "sale_item list \<Rightarrow> string \<Rightarrow> int" where
  "soldOf its b = sum_list (map si_quantity (filter (\<lambda>i. si_barcode i = b) its))"

text \<open>The own properties of an object as \<open>Object.entries\<close> lists them: the order of
  \<open>Object.values\<close>, with the keys.\<close>

definition objectEntries :: "'v js_object \<Rightarrow> (string \<times> 'v) list" where
  "objectEntries obj =
     sort_key (\<lambda>e. case arrayIndex (fst e) of None \<Rightarrow> 0 | Some n \<Rightarrow> n)
       (filter (\<lambda>e. arrayIndex (fst e) \<noteq> None) obj)
     @ filter (\<lambda>e. arrayIndex (fst e) = None) obj"

text \<open>The entries of \<open>productSales\<close> that pass the filter, and the same after the sort,
  each still with its barcode.\<close>

definition flaggedEntries :: "product list \<Rightarrow> sale_record list \<Rightarrow> (string \<times> product_sales) list" where
  "flaggedEntries ps window =
     filter (\<lambda>e. needsRestock (withVelocity (snd e))) (objectEntries (productSalesOf ps window))"

definition rankedEntries :: "product list \<Rightarrow> sale_record list \<Rightarrow> (string \<times> product_sales) list" where
  "rankedEntries ps window =
     sort_key (\<lambda>e. rc_daysRemaining (withVelocity (snd e))) (flaggedEntries ps window)"

section \<open>Example data\<close>

definition example_product :: product where
  "example_product =
     \<lparr>p_barcode = ''123'', p_name = ''Pen'', p_price = 10, p_stock = 5, p_category = Other\<rparr>"

definition example_cup :: product where
  "example_cup =
     \<lparr>p_barcode = ''456'', p_name = ''Cup'', p_price = 5, p_stock = 2, p_category = Other\<rparr>"

definition example_storage :: storage where
  "example_storage =
     \<lparr>products = [example_product, example_cup], stock_logs = [], sales = [],
      stock_transfers = []\<rparr>"

text \<open>A line of \<open>q\<close> units of a product, as \<open>handlePaymentComplete\<close> builds it from a
  cart item.\<close>

definition lineOf :: "product \<Rightarrow> int \<Rightarrow> sale_item" where
  "lineOf p q =
     \<lparr>si_barcode = p_barcode p, si_name = p_name p, si_price = p_price p, si_quantity = q,
      si_total = p_price p * of_int q\<rparr>"

definition example_items :: "sale_item list" where
  "example_items = [lineOf example_product 2, lineOf example_cup 1]"

definition example_request :: transfer_request where
  "example_request =
     \<lparr>tr_fromStoreId = ''store-001'', tr_toStoreId = ''store-002'',
      tr_fromStoreName = ''Main Store'', tr_toStoreName = ''Branch'',
      tr_barcode = ''123'', tr_productName = ''Pen'', tr_quantity = 4,
      tr_status = pending, tr_requestedBy = ''Admin'', tr_completedAt = None\<rparr>"

text \<open>Two transfer requests, filed at the instants 7 and 8.\<close>

definition example_transfers :: storage where
  "example_transfers =
     snd (create 8 example_request (snd (create 7 example_request example_storage)))"

definition example_ink :: product where
  "example_ink =
     \<lparr>p_barcode = ''789'', p_name = ''Ink'', p_price = 3, p_stock = 0, p_category = Other\<rparr>"

definition example_shelf :: storage where
  "example_shelf =
     \<lparr>products = [example_product, example_ink], stock_logs = [], sales = [],
      stock_transfers = []\<rparr>"

text \<open>A cart holding \<open>q\<close> units of the example product.\<close>

definition cartOf :: "int \<Rightarrow> cart_item list" where
  "cartOf q = [\<lparr>ci_product = example_product, ci_quantity = q\<rparr>]"


text \<open>A sale of the given lines at instant \<open>t\<close>, paid exactly.\<close>

definition saleOf :: "nat \<Rightarrow> sale_item list \<Rightarrow> sale_record" where
  "saleOf t items =
     \<lparr>sr_id = ''sale-'' @ toStringRadix 10 t,
      sr_receiptNumber = generateReceiptNumber t ''AAA'',
      sr_items = items,
      sr_subtotal = sum_list (map si_total items),
      sr_tax = 0,
      sr_total = sum_list (map si_total items),
      sr_paymentMethod = Cash,
      sr_amountPaid = sum_list (map si_total items),
      sr_change = 0,
      sr_cashierName = ''bob'',
      sr_storeId = ''store-001'',
      sr_storeName = ''Main Store'',
      sr_timestamp = t\<rparr>"

text \<open>A calendar with two days: instants below 100 fall on the first.\<close>

definition example_day :: "nat \<Rightarrow> string" where
  "example_day t = (if t < 100 then ''Mon Nov 02 2026'' else ''Tue Nov 03 2026'')"

definition example_window :: "sale_record list" where
  "example_window =
     [saleOf 10 [lineOf example_product 1], saleOf 20 [lineOf example_product 1],
      saleOf 30 [lineOf example_product 2], saleOf 40 [lineOf example_product 1],
      saleOf 110 [lineOf example_cup 1], saleOf 120 [lineOf example_cup 1],
      saleOf 130 [lineOf example_product 1]]"

text \<open>A catalog of six products with one unit each in stock, and a sale of all six.\<close>

definition stocked :: "string \<Rightarrow> product" where
  "stocked b = \<lparr>p_barcode = b, p_name = b, p_price = 1, p_stock = 1, p_category = Other\<rparr>"

definition example_catalog :: "product list" where
  "example_catalog = map stocked [''A1'', ''A2'', ''A3'', ''A4'', ''A5'', ''A6'']"

definition example_busy_window :: "sale_record list" where
  "example_busy_window =
     [saleOf 10 [lineOf (stocked ''A1'') 1, lineOf (stocked ''A2'') 2, lineOf (stocked ''A3'') 3,
                 lineOf (stocked ''A4'') 4, lineOf (stocked ''A5'') 5, lineOf (stocked ''A6'') 6]]"


text \<open>A sale of one unit at the given price, paid with the given method; a day with
  sales of 29.99 (cash), 29.99 (card) and 149.99 (cash), and a day of cash sales only.\<close>

definition pricedSale :: "nat \<Rightarrow> payment_method \<Rightarrow> rat \<Rightarrow> sale_record" where
  "pricedSale t m price =
     (saleOf t [lineOf (example_product\<lparr>p_price := price\<rparr>) 1])\<lparr>sr_paymentMethod := m\<rparr>"

definition example_ledger :: storage where
  "example_ledger =
     example_storage\<lparr>sales :=
       [pricedSale 10 Cash (round64 (2999 / 100)),
        pricedSale 20 Card (round64 (2999 / 100)),
        pricedSale 30 Cash (round64 (14999 / 100))]\<rparr>"

definition example_cash_ledger :: storage where
  "example_cash_ledger =
     example_storage\<lparr>sales :=
       [pricedSale 10 Cash (round64 (2999 / 100)),
        pricedSale 30 Cash (round64 (14999 / 100))]\<rparr>"

text \<open>Two transfer requests filed within the same millisecond, the first one then
  completed.\<close>

definition example_twins :: storage where
  "example_twins =
     snd (complete 9 ''transfer-7''
       (snd (create 7 example_request (snd (create 7 example_request example_storage)))))"

section \<open>Lemmas on the helpers\<close>

lemma findIndex_None_iff: "findIndex P xs = None \<longleftrightarrow> (\<forall>x \<in> set xs. \<not> P x)"
  by (induction xs) (auto split: option.splits)

lemma findIndex_Some_D:
  "findIndex P xs = Some i \<Longrightarrow> i < length xs \<and> P (xs ! i) \<and> (\<forall>j < i. \<not> P (xs ! j))"
proof (induction xs arbitrary: i)
  case Nil
  then show ?case by simp
next
  case (Cons x xs)
  show ?case
  proof (cases "P x")
    case True
    with Cons.prems show ?thesis by simp
  next
    case False
    with Cons.prems obtain k where k: "findIndex P xs = Some k" "i = Suc k"
      by (auto split: option.splits)
    from Cons.IH [OF k(1)] False k(2) show ?thesis
      by (auto simp: less_Suc_eq_0_disj)
  qed
qed

lemma find_findIndex:
  "find P xs = (case findIndex P xs of None \<Rightarrow> None | Some i \<Rightarrow> Some (xs ! i))"
  by (induction xs) (auto split: option.splits)

lemma findIndex_first:
  "j < length xs \<Longrightarrow> P (xs ! j) \<Longrightarrow> (\<forall>i < j. \<not> P (xs ! i)) \<Longrightarrow> findIndex P xs = Some j"
proof (induction xs arbitrary: j)
  case Nil
  then show ?case by simp
next
  case (Cons x xs)
  show ?case
  proof (cases j)
    case 0
    with Cons.prems show ?thesis by simp
  next
    case (Suc k)
    with Cons.prems have "\<not> P x" by auto
    moreover from Cons.prems Suc have "findIndex P xs = Some k"
      by (intro Cons.IH) auto
    ultimately show ?thesis using Suc by simp
  qed
qed

lemma foldl_add_sum_list:
  fixes a :: "'b::comm_monoid_add"
  shows "foldl (\<lambda>sum x. sum + f x) a xs = a + sum_list (map f xs)"
  by (induction xs arbitrary: a) (simp_all add: add.assoc)

lemma checkStock_None_iff:
  "checkStock ps items = None \<longleftrightarrow>
     (\<forall>item \<in> set items. \<exists>p. find (\<lambda>p. p_barcode p = si_barcode item) ps = Some p
                               \<and> si_quantity item \<le> p_stock p)"
  by (induction items) (auto split: option.splits)

section \<open>ProductService.restock\<close>

text \<open>
  Claim C5 (restock contract). \<open>restock\<close> fails with the validation error when the
  quantity is not positive and, the quantity being positive, with the not-found error
  when no product has the barcode; both leave the storage, products and stock logs
  included, as it was. Otherwise it succeeds: the product found by the barcode gets its
  previous stock plus the quantity, every other product is untouched, and exactly one
  log entry, with \<open>previousStock\<close> the old stock, \<open>newStock\<close> the old stock plus the
  quantity and \<open>quantityAdded\<close> the quantity, is put at the head of the stock log.
\<close>

theorem restock_contract:
  "(quantity \<le> 0 \<longrightarrow>
      restock now barcode quantity performedBy s = (Inl QuantityMustBePositive, s)) \<and>
   (0 < quantity \<and> findByBarcode s barcode = None \<longrightarrow>
      restock now barcode quantity performedBy s = (Inl ProductNotFound, s)) \<and>
   (0 < quantity \<and> findByBarcode s barcode = Some product \<longrightarrow>
      (\<exists>i log s'.
         restock now barcode quantity performedBy s = (Inr (), s') \<and>
         findIndex (\<lambda>p. p_barcode p = barcode) (products s) = Some i \<and>
         products s' = (products s)[i := product\<lparr>p_stock := p_stock product + quantity\<rparr>] \<and>
         findByBarcode s' barcode = Some (product\<lparr>p_stock := p_stock product + quantity\<rparr>) \<and>
         stock_logs s' = log # stock_logs s \<and>
         sl_barcode log = barcode \<and>
         sl_productName log = p_name product \<and>
         sl_previousStock log = p_stock product \<and>
         sl_newStock log = p_stock product + quantity \<and>
         sl_quantityAdded log = quantity \<and>
         sl_performedBy log = performedBy \<and>
         sales s' = sales s \<and> stock_transfers s' = stock_transfers s))"
proof (intro conjI impI)
  assume "quantity \<le> 0"
  then show "restock now barcode quantity performedBy s = (Inl QuantityMustBePositive, s)"
    by (simp add: restock_def)
next
  assume a: "0 < quantity \<and> findByBarcode s barcode = None"
  then have "findIndex (\<lambda>p. p_barcode p = barcode) (products s) = None"
    by (simp add: findByBarcode_def find_findIndex split: option.splits)
  with a show "restock now barcode quantity performedBy s = (Inl ProductNotFound, s)"
    by (simp add: restock_def)
next
  assume a: "0 < quantity \<and> findByBarcode s barcode = Some product"
  then obtain i where i: "findIndex (\<lambda>p. p_barcode p = barcode) (products s) = Some i"
    and p: "products s ! i = product"
    by (auto simp: findByBarcode_def find_findIndex split: option.splits)
  from findIndex_Some_D [OF i] p
  have il: "i < length (products s)" and pb: "p_barcode product = barcode"
    and first: "\<forall>j < i. p_barcode (products s ! j) \<noteq> barcode"
    by auto
  let ?p' = "product\<lparr>p_stock := p_stock product + quantity\<rparr>"
  have "findIndex (\<lambda>p. p_barcode p = barcode) ((products s)[i := ?p']) = Some i"
    using il pb first by (intro findIndex_first) auto
  then have f': "find (\<lambda>p. p_barcode p = barcode) ((products s)[i := ?p']) = Some ?p'"
    using il by (simp add: find_findIndex)
  show "\<exists>i log s'.
         restock now barcode quantity performedBy s = (Inr (), s') \<and>
         findIndex (\<lambda>p. p_barcode p = barcode) (products s) = Some i \<and>
         products s' = (products s)[i := product\<lparr>p_stock := p_stock product + quantity\<rparr>] \<and>
         findByBarcode s' barcode = Some (product\<lparr>p_stock := p_stock product + quantity\<rparr>) \<and>
         stock_logs s' = log # stock_logs s \<and>
         sl_barcode log = barcode \<and>
         sl_productName log = p_name product \<and>
         sl_previousStock log = p_stock product \<and>
         sl_newStock log = p_stock product + quantity \<and>
         sl_quantityAdded log = quantity \<and>
         sl_performedBy log = performedBy \<and>
         sales s' = sales s \<and> stock_transfers s' = stock_transfers s"
    using a i p f' by (simp add: restock_def Let_def findByBarcode_def)
qed

theorem restock_contract_witness:
  "restock 7 ''123'' 0 ''alice'' example_storage = (Inl QuantityMustBePositive, example_storage) \<and>
   restock 7 ''999'' 10 ''alice'' example_storage = (Inl ProductNotFound, example_storage) \<and>
   (\<exists>log s'. restock 7 ''123'' 10 ''alice'' example_storage = (Inr (), s') \<and>
      findByBarcode s' ''123'' = Some (example_product\<lparr>p_stock := 15\<rparr>) \<and>
      stock_logs s' = [log] \<and>
      sl_previousStock log = 5 \<and> sl_newStock log = 15 \<and> sl_quantityAdded log = 10)"
  using restock_contract [where quantity = 0 and now = 7 and barcode = "''123''"
      and performedBy = "''alice''" and s = example_storage]
    restock_contract [where quantity = 10 and now = 7 and barcode = "''999''"
      and performedBy = "''alice''" and s = example_storage and product = example_cup]
    restock_contract [where quantity = 10 and now = 7 and barcode = "''123''"
      and performedBy = "''alice''" and s = example_storage and product = example_product]
  by (auto simp: example_storage_def example_product_def example_cup_def findByBarcode_def)

section \<open>SaleService.processSale\<close>

lemmas example_defs =
  example_storage_def example_product_def example_cup_def example_items_def lineOf_def

lemma processSale_failure_unchanged:
  "processSale now rnd items pm amountPaid cashier storeId storeName s = (Inl e, s') \<Longrightarrow> s' = s"
  by (simp add: processSale_def Let_def split: if_splits option.splits)

lemma checkStock_fails_iff:
  "checkStock ps items \<noteq> None \<longleftrightarrow>
     (\<exists>item \<in> set items.
        find (\<lambda>p. p_barcode p = si_barcode item) ps = None \<or>
        (\<exists>p. find (\<lambda>p. p_barcode p = si_barcode item) ps = Some p
             \<and> p_stock p < si_quantity item))"
  by (induction items) (auto split: option.splits)

lemma processSale_failure_causes:
  assumes "items = [] \<or>
    amountPaid < sum_list (map si_total items) \<or>
    (\<exists>item \<in> set items.
        findByBarcode s (si_barcode item) = None \<or>
        (\<exists>p. findByBarcode s (si_barcode item) = Some p \<and> p_stock p < si_quantity item))"
  shows "\<exists>e. processSale now rnd items pm amountPaid cashier storeId storeName s = (Inl e, s)"
proof -
  have "checkStock (products s) items \<noteq> None"
    if "\<exists>item \<in> set items.
        findByBarcode s (si_barcode item) = None \<or>
        (\<exists>p. findByBarcode s (si_barcode item) = Some p \<and> p_stock p < si_quantity item)"
    using that unfolding checkStock_fails_iff findByBarcode_def .
  with assms consider (empty) "items = []"
    | (payment) "items \<noteq> []" "amountPaid < sum_list (map si_total items)"
    | (stock) e where "items \<noteq> []" "\<not> amountPaid < sum_list (map si_total items)"
        "checkStock (products s) items = Some e"
    by blast
  then show ?thesis
  proof cases
    case empty
    then show ?thesis by (simp add: processSale_def)
  next
    case payment
    then show ?thesis
      by (simp add: processSale_def Let_def taxRate_def foldl_add_sum_list)
  next
    case stock
    then show ?thesis
      by (simp add: processSale_def Let_def taxRate_def foldl_add_sum_list)
  qed
qed

text \<open>
  Claim C1 (all-or-nothing checkout). Each cause of failure (an empty list of items, a
  payment below the total, a line whose product is not found, a line whose product has
  less stock than the line's quantity) makes \<open>processSale\<close> return an unsuccessful result
  with the storage unchanged; and whenever the result is unsuccessful the storage after
  the call is the storage before it, so neither the products nor the sales ledger
  change and no sale record is stored.
\<close>

theorem processSale_all_or_nothing:
  "(items = [] \<or>
    amountPaid < sum_list (map si_total items) \<or>
    (\<exists>item \<in> set items.
        findByBarcode s (si_barcode item) = None \<or>
        (\<exists>p. findByBarcode s (si_barcode item) = Some p \<and> p_stock p < si_quantity item))
    \<longrightarrow> (\<exists>e. processSale now rnd items pm amountPaid cashier storeId storeName s = (Inl e, s)))
   \<and>
   (\<forall>e s'. processSale now rnd items pm amountPaid cashier storeId storeName s = (Inl e, s')
      \<longrightarrow> s' = s \<and> products s' = products s \<and> sales s' = sales s)"
  using processSale_failure_causes [of items amountPaid s now rnd pm cashier storeId storeName]
    processSale_failure_unchanged [of now rnd items pm amountPaid cashier storeId storeName s]
  by blast


theorem processSale_all_or_nothing_witness:
  "processSale 7 ''ABC'' [] Cash 30 ''bob'' ''store-001'' ''Main Store'' example_storage
     = (Inl NoItemsInCart, example_storage) \<and>
   processSale 7 ''ABC'' example_items Cash 20 ''bob'' ''store-001'' ''Main Store'' example_storage
     = (Inl InsufficientPayment, example_storage) \<and>
   processSale 7 ''ABC'' [lineOf example_product 2, lineOf example_cup 3] Cash 40 ''bob''
       ''store-001'' ''Main Store'' example_storage
     = (Inl (InsufficientStock ''Cup'' 2), example_storage)"
proof -
  have a: "processSale 7 ''ABC'' [] Cash 30 ''bob'' ''store-001'' ''Main Store'' example_storage
     = (Inl NoItemsInCart, example_storage)"
    by (simp add: processSale_def)
  have b: "processSale 7 ''ABC'' example_items Cash 20 ''bob'' ''store-001'' ''Main Store''
       example_storage = (Inl InsufficientPayment, snd (processSale 7 ''ABC'' example_items Cash 20
         ''bob'' ''store-001'' ''Main Store'' example_storage))"
    by (simp add: processSale_def example_defs taxRate_def)
  have c: "processSale 7 ''ABC'' [lineOf example_product 2, lineOf example_cup 3] Cash 40 ''bob''
       ''store-001'' ''Main Store'' example_storage
     = (Inl (InsufficientStock ''Cup'' 2), snd (processSale 7 ''ABC''
          [lineOf example_product 2, lineOf example_cup 3] Cash 40 ''bob''
          ''store-001'' ''Main Store'' example_storage))"
    by (simp add: processSale_def example_defs taxRate_def)
  from processSale_all_or_nothing [THEN conjunct2, rule_format, OF b] b
    processSale_all_or_nothing [THEN conjunct2, rule_format, OF c] c
    processSale_all_or_nothing [where items = "[]" and s = example_storage
      and amountPaid = 30 and now = 7 and rnd = "''ABC''" and pm = Cash and cashier = "''bob''"
      and storeId = "''store-001''" and storeName = "''Main Store''", THEN conjunct1] a
  show ?thesis by simp
qed


text \<open>
  Claim C3 (payment invariant). The record made by a successful \<open>processSale\<close> has
  \<open>subtotal\<close> the sum of its items' totals, \<open>tax\<close> the subtotal times the tax rate (which
  is 0), \<open>total = subtotal + tax\<close>, \<open>amountPaid \<ge> total\<close> and
  \<open>change = amountPaid - total\<close>; it is the new head of the sales ledger. A call that pays
  less than the total is rejected and changes nothing.
\<close>

theorem processSale_payment_invariant:
  "(processSale now rnd items pm amountPaid cashier storeId storeName s = (Inr (sale, change), s')
      \<longrightarrow>
      sr_items sale = items \<and>
      sr_subtotal sale = sum_list (map si_total (sr_items sale)) \<and>
      sr_tax sale = sr_subtotal sale * taxRate \<and> taxRate = 0 \<and>
      sr_total sale = sr_subtotal sale + sr_tax sale \<and>
      sr_amountPaid sale = amountPaid \<and>
      sr_total sale \<le> sr_amountPaid sale \<and>
      sr_change sale = sr_amountPaid sale - sr_total sale \<and>
      change = sr_change sale \<and>
      sales s' = sale # sales s) \<and>
   (amountPaid < sum_list (map si_total items) + sum_list (map si_total items) * taxRate
      \<longrightarrow>
      processSale now rnd items pm amountPaid cashier storeId storeName s =
        (Inl (if items = [] then NoItemsInCart else InsufficientPayment), s))"
proof (rule conjI)
  show "processSale now rnd items pm amountPaid cashier storeId storeName s
          = (Inr (sale, change), s') \<longrightarrow>
      sr_items sale = items \<and>
      sr_subtotal sale = sum_list (map si_total (sr_items sale)) \<and>
      sr_tax sale = sr_subtotal sale * taxRate \<and> taxRate = 0 \<and>
      sr_total sale = sr_subtotal sale + sr_tax sale \<and>
      sr_amountPaid sale = amountPaid \<and>
      sr_total sale \<le> sr_amountPaid sale \<and>
      sr_change sale = sr_amountPaid sale - sr_total sale \<and>
      change = sr_change sale \<and>
      sales s' = sale # sales s"
    by (auto simp: processSale_def Let_def taxRate_def foldl_add_sum_list
        split: if_splits option.splits)
  show "amountPaid < sum_list (map si_total items) + sum_list (map si_total items) * taxRate
      \<longrightarrow>
      processSale now rnd items pm amountPaid cashier storeId storeName s =
        (Inl (if items = [] then NoItemsInCart else InsufficientPayment), s)"
    by (simp add: processSale_def Let_def taxRate_def foldl_add_sum_list)
qed

theorem processSale_payment_invariant_witness:
  "(\<exists>sale s'.
      processSale 7 ''ABC'' example_items Cash 30 ''bob'' ''store-001'' ''Main Store''
        example_storage = (Inr (sale, 5), s') \<and>
      sr_subtotal sale = 25 \<and> sr_tax sale = 0 \<and> sr_total sale = 25 \<and>
      sr_amountPaid sale = 30 \<and> sr_change sale = 5 \<and> sales s' = [sale]) \<and>
   processSale 7 ''ABC'' example_items Cash 20 ''bob'' ''store-001'' ''Main Store''
     example_storage = (Inl InsufficientPayment, example_storage)"
proof -
  obtain sale change s' where run:
    "processSale 7 ''ABC'' example_items Cash 30 ''bob'' ''store-001'' ''Main Store''
        example_storage = (Inr (sale, change), s')"
    by (simp add: processSale_def example_defs taxRate_def Let_def)
  from processSale_payment_invariant [THEN conjunct1, rule_format, OF run]
  have "sr_subtotal sale = 25 \<and> sr_tax sale = 0 \<and> sr_total sale = 25 \<and>
      sr_amountPaid sale = 30 \<and> sr_change sale = 5 \<and> change = 5 \<and> sales s' = [sale]"
    by (simp add: example_defs)
  with run have first: "\<exists>sale s'.
      processSale 7 ''ABC'' example_items Cash 30 ''bob'' ''store-001'' ''Main Store''
        example_storage = (Inr (sale, 5), s') \<and>
      sr_subtotal sale = 25 \<and> sr_tax sale = 0 \<and> sr_total sale = 25 \<and>
      sr_amountPaid sale = 30 \<and> sr_change sale = 5 \<and> sales s' = [sale]"
    by blast
  have "(20::rat) < sum_list (map si_total example_items)
          + sum_list (map si_total example_items) * taxRate"
    by (simp add: example_defs taxRate_def)
  from processSale_payment_invariant [THEN conjunct2, rule_format, OF this]
  have "processSale 7 ''ABC'' example_items Cash 20 ''bob'' ''store-001'' ''Main Store''
     example_storage = (Inl InsufficientPayment, example_storage)"
    by (simp add: example_items_def)
  with first show ?thesis by blast
qed

section \<open>SaleService.getDailyTotals\<close>

lemma dailyStep_count:
  "pm_count (fst (dailyStep acc x) Cash) + pm_count (fst (dailyStep acc x) Mobile_money)
     + pm_count (fst (dailyStep acc x) Card)
   = pm_count (fst acc Cash) + pm_count (fst acc Mobile_money) + pm_count (fst acc Card) + 1"
  by (cases "sr_paymentMethod x") (simp_all add: dailyStep_def Let_def)

lemma foldl_dailyStep_count:
  "pm_count (fst (foldl dailyStep acc xs) Cash)
     + pm_count (fst (foldl dailyStep acc xs) Mobile_money)
     + pm_count (fst (foldl dailyStep acc xs) Card)
   = pm_count (fst acc Cash) + pm_count (fst acc Mobile_money) + pm_count (fst acc Card)
     + length xs"
proof (induction xs arbitrary: acc)
  case Nil
  then show ?case by simp
next
  case (Cons x xs)
  show ?case
    by (simp add: Cons.IH dailyStep_count)
qed

lemma foldl_dailyStep_amount:
  "pm_amount (fst (foldl dailyStep acc xs) m) =
     foldl fadd (pm_amount (fst acc m))
       (map sr_total (filter (\<lambda>sale. sr_paymentMethod sale = m) xs))"
proof (induction xs arbitrary: acc)
  case Nil
  then show ?case by simp
next
  case (Cons x xs)
  have "pm_amount (fst (dailyStep acc x) m) =
      (if sr_paymentMethod x = m then fadd (pm_amount (fst acc m)) (sr_total x)
       else pm_amount (fst acc m))"
    by (simp add: dailyStep_def Let_def)
  then show ?case
    by (simp add: Cons.IH)
qed

lemma foldl_dailyStep_method_count:
  "pm_count (fst (foldl dailyStep acc xs) m) =
     pm_count (fst acc m) + length (filter (\<lambda>sale. sr_paymentMethod sale = m) xs)"
proof (induction xs arbitrary: acc)
  case Nil
  then show ?case by simp
next
  case (Cons x xs)
  have "pm_count (fst (dailyStep acc x) m) =
      (if sr_paymentMethod x = m then pm_count (fst acc m) + 1 else pm_count (fst acc m))"
    by (simp add: dailyStep_def Let_def)
  then show ?case
    by (simp add: Cons.IH)
qed

lemma foldl_fadd_map:
  "foldl (\<lambda>sum x. fadd sum (f x)) a xs = foldl fadd a (map f xs)"
  by (induction xs arbitrary: a) simp_all

lemma filter_other_method:
  "\<forall>sale \<in> set xs. sr_paymentMethod sale = m \<Longrightarrow> m' \<noteq> m \<Longrightarrow>
   filter (\<lambda>sale. sr_paymentMethod sale = m') xs = []"
  by (auto simp: filter_empty_conv)

text \<open>Binary64 at work: \<open>0.1 + 0.2\<close> is \<open>0.30000000000000004\<close>, not \<open>0.3\<close>; then the
  literals and sums of the example day.\<close>

lemma fadd_tenths:
  "fadd (round64 (1 / 10)) (round64 (2 / 10)) = round64 (30000000000000004 / 100000000000000000)"
  "fadd (round64 (1 / 10)) (round64 (2 / 10)) \<noteq> round64 (3 / 10)"
  by code_simp+

lemma lit1: "round64 (2999 / 100) = 8441434551552573 / 281474976710656"
  by code_simp

lemma lit2: "round64 (14999 / 100) = 659662996200489 / 4398046511104"
  by code_simp

lemma sum_all:
  "fadd (fadd (fadd 0 (8441434551552573 / 281474976710656)) (8441434551552573 / 281474976710656))
     (659662996200489 / 4398046511104) = 7387662607492055 / 35184372088832"
  by code_simp

lemma sum_cash:
  "fadd (fadd 0 (8441434551552573 / 281474976710656)) (659662996200489 / 4398046511104)
     = 395780205534249 / 2199023255552"
  by code_simp

lemma sum_card: "fadd 0 (8441434551552573 / 281474976710656) = 8441434551552573 / 281474976710656"
  by code_simp

lemma example_ledger_day:
  "getByDateRange example_ledger 0 1000 None =
     [pricedSale 10 Cash (round64 (2999 / 100)),
      pricedSale 20 Card (round64 (2999 / 100)),
      pricedSale 30 Cash (round64 (14999 / 100))]"
  by (simp add: getByDateRange_def example_ledger_def pricedSale_def saleOf_def)

lemma pricedSale_fields:
  "sr_total (pricedSale t m price) = price" "sr_paymentMethod (pricedSale t m price) = m"
  by (simp_all add: pricedSale_def saleOf_def lineOf_def)

text \<open>
  Claim C10 (daily totals are consistent), as stated: \<open>totalRevenue\<close> equals the sum of
  the three amounts. The code adds the same doubles in two orders, all sales in ledger
  order for \<open>totalRevenue\<close> and method by method for the amounts, and the roundings
  differ: for sales of 29.99 in cash, 29.99 by card and 149.99 in cash,
  \<open>totalRevenue\<close> is the double 209.97 and the amounts add up to more.
\<close>

theorem getDailyTotals_rounding_counterexample:
  "totalRevenue (getDailyTotals (\<lambda>d. 0) (\<lambda>d. 1000) example_ledger 500 None)
     = 7387662607492055 / 35184372088832 \<and>
   pm_amount (byPaymentMethod (getDailyTotals (\<lambda>d. 0) (\<lambda>d. 1000) example_ledger 500 None) Cash)
   + pm_amount (byPaymentMethod (getDailyTotals (\<lambda>d. 0) (\<lambda>d. 1000) example_ledger 500 None)
       Mobile_money)
   + pm_amount (byPaymentMethod (getDailyTotals (\<lambda>d. 0) (\<lambda>d. 1000) example_ledger 500 None) Card)
     = 59101300859936445 / 281474976710656 \<and>
   totalRevenue (getDailyTotals (\<lambda>d. 0) (\<lambda>d. 1000) example_ledger 500 None) \<noteq>
   pm_amount (byPaymentMethod (getDailyTotals (\<lambda>d. 0) (\<lambda>d. 1000) example_ledger 500 None) Cash)
   + pm_amount (byPaymentMethod (getDailyTotals (\<lambda>d. 0) (\<lambda>d. 1000) example_ledger 500 None)
       Mobile_money)
   + pm_amount (byPaymentMethod (getDailyTotals (\<lambda>d. 0) (\<lambda>d. 1000) example_ledger 500 None) Card)"
proof -
  let ?G = "getDailyTotals (\<lambda>d. 0) (\<lambda>d. 1000) example_ledger 500 None"
  have revenue: "totalRevenue ?G = 7387662607492055 / 35184372088832"
    by (simp add: getDailyTotals_def Let_def example_ledger_day pricedSale_fields
        lit1 lit2 sum_all)
  have amount: "pm_amount (byPaymentMethod ?G k) =
      foldl fadd 0 (map sr_total (filter (\<lambda>sale. sr_paymentMethod sale = k)
        (getByDateRange example_ledger 0 1000 None)))" for k
    by (simp add: getDailyTotals_def Let_def foldl_dailyStep_amount)
  have cash: "pm_amount (byPaymentMethod ?G Cash) = 395780205534249 / 2199023255552"
    by (simp add: amount example_ledger_day pricedSale_fields lit1 lit2 sum_cash)
  have mobile: "pm_amount (byPaymentMethod ?G Mobile_money) = 0"
    by (simp add: amount example_ledger_day pricedSale_fields)
  have card: "pm_amount (byPaymentMethod ?G Card) = 8441434551552573 / 281474976710656"
    by (simp add: amount example_ledger_day pricedSale_fields lit1 sum_card)
  show ?thesis
    by (simp add: revenue cash mobile card)
qed

text \<open>
  Claim C10, amended. For every date and optional store filter, \<open>totalSales\<close> is the sum
  of the three counts, and the count of a method is the number of the day's sales paid
  with it. \<open>totalRevenue\<close> is the running binary64 sum of the totals of the day's sales
  in ledger order, and the amount of a method is the running binary64 sum of the totals
  of the day's sales paid with that method, in ledger order: the same totals, summed in
  two orders, so the two agree up to rounding. They agree exactly when all the day's
  sales are paid with one method.
\<close>

theorem getDailyTotals_running_sums:
  "totalSales (getDailyTotals startOfDay endOfDay s date storeId) =
     pm_count (byPaymentMethod (getDailyTotals startOfDay endOfDay s date storeId) Cash) +
     pm_count (byPaymentMethod (getDailyTotals startOfDay endOfDay s date storeId) Mobile_money) +
     pm_count (byPaymentMethod (getDailyTotals startOfDay endOfDay s date storeId) Card) \<and>
   totalRevenue (getDailyTotals startOfDay endOfDay s date storeId) =
     foldl fadd 0
       (map sr_total (getByDateRange s (startOfDay date) (endOfDay date) storeId)) \<and>
   pm_amount (byPaymentMethod (getDailyTotals startOfDay endOfDay s date storeId) m) =
     foldl fadd 0
       (map sr_total (filter (\<lambda>sale. sr_paymentMethod sale = m)
          (getByDateRange s (startOfDay date) (endOfDay date) storeId))) \<and>
   pm_count (byPaymentMethod (getDailyTotals startOfDay endOfDay s date storeId) m) =
     length (filter (\<lambda>sale. sr_paymentMethod sale = m)
          (getByDateRange s (startOfDay date) (endOfDay date) storeId)) \<and>
   ((\<forall>sale \<in> set (getByDateRange s (startOfDay date) (endOfDay date) storeId).
        sr_paymentMethod sale = m) \<longrightarrow>
      totalRevenue (getDailyTotals startOfDay endOfDay s date storeId) =
        pm_amount (byPaymentMethod (getDailyTotals startOfDay endOfDay s date storeId) Cash) +
        pm_amount (byPaymentMethod (getDailyTotals startOfDay endOfDay s date storeId)
          Mobile_money) +
        pm_amount (byPaymentMethod (getDailyTotals startOfDay endOfDay s date storeId) Card))"
proof -
  let ?day = "getByDateRange s (startOfDay date) (endOfDay date) storeId"
  let ?G = "getDailyTotals startOfDay endOfDay s date storeId"
  have amount: "pm_amount (byPaymentMethod ?G k) =
      foldl fadd 0 (map sr_total (filter (\<lambda>sale. sr_paymentMethod sale = k) ?day))" for k
    by (simp add: getDailyTotals_def Let_def foldl_dailyStep_amount)
  have revenue: "totalRevenue ?G = foldl fadd 0 (map sr_total ?day)"
    by (simp add: getDailyTotals_def Let_def foldl_fadd_map [symmetric])
  have counts: "totalSales ?G = pm_count (byPaymentMethod ?G Cash)
      + pm_count (byPaymentMethod ?G Mobile_money) + pm_count (byPaymentMethod ?G Card)"
    by (simp add: getDailyTotals_def Let_def foldl_dailyStep_count)
  have count: "pm_count (byPaymentMethod ?G m) =
      length (filter (\<lambda>sale. sr_paymentMethod sale = m) ?day)"
    by (simp add: getDailyTotals_def Let_def foldl_dailyStep_method_count)
  have single: "totalRevenue ?G = pm_amount (byPaymentMethod ?G Cash)
      + pm_amount (byPaymentMethod ?G Mobile_money) + pm_amount (byPaymentMethod ?G Card)"
    if one: "\<forall>sale \<in> set ?day. sr_paymentMethod sale = m"
  proof -
    from one have all: "filter (\<lambda>sale. sr_paymentMethod sale = m) ?day = ?day"
      by (simp add: filter_id_conv)
    have other: "pm_amount (byPaymentMethod ?G k) = 0" if "k \<noteq> m" for k
      using filter_other_method [OF one that] by (simp add: amount)
    have this_one: "pm_amount (byPaymentMethod ?G m) = totalRevenue ?G"
      by (simp only: amount revenue all)
    show ?thesis
      using other this_one by (cases m) simp_all
  qed
  from amount [of m] revenue counts count single show ?thesis by blast
qed

theorem getDailyTotals_running_sums_witness:
  "totalSales (getDailyTotals (\<lambda>d. 0) (\<lambda>d. 1000) example_cash_ledger 500 None) = 2 \<and>
   totalRevenue (getDailyTotals (\<lambda>d. 0) (\<lambda>d. 1000) example_cash_ledger 500 None) =
     pm_amount (byPaymentMethod (getDailyTotals (\<lambda>d. 0) (\<lambda>d. 1000) example_cash_ledger 500 None)
       Cash) +
     pm_amount (byPaymentMethod (getDailyTotals (\<lambda>d. 0) (\<lambda>d. 1000) example_cash_ledger 500 None)
       Mobile_money) +
     pm_amount (byPaymentMethod (getDailyTotals (\<lambda>d. 0) (\<lambda>d. 1000) example_cash_ledger 500 None)
       Card)"
proof -
  have day: "\<forall>sale \<in> set (getByDateRange example_cash_ledger 0 1000 None).
      sr_paymentMethod sale = Cash"
    by (simp add: getByDateRange_def example_cash_ledger_def pricedSale_def saleOf_def)
  have n: "length (getByDateRange example_cash_ledger 0 1000 None) = 2"
    by (simp add: getByDateRange_def example_cash_ledger_def pricedSale_def saleOf_def)
  from getDailyTotals_running_sums [of "\<lambda>d. 0" "\<lambda>d. 1000" example_cash_ledger 500 None Cash]
    day n
  show ?thesis
    by (simp add: getDailyTotals_def Let_def)
qed

section \<open>StockTransferService\<close>

text \<open>
  Claim C6 (transfer creation), as stated: the created transfer always has status
  pending. \<open>create\<close> copies the status of the request, so a request that carries
  another status is stored with that status.
\<close>

theorem create_status_counterexample:
  "st_status (last (stock_transfers
      (snd (create 7 (example_request\<lparr>tr_status := completed\<rparr>) example_storage)))) \<noteq> pending"
  by (simp add: create_def example_request_def example_storage_def)

text \<open>
  Claim C6, amended. \<open>create\<close> always succeeds and appends exactly one transfer at the
  end of the collection; the new transfer carries the fields of the request, its
  status among them (so it is pending when the request says pending, as the transfer
  form of the manager page does), a fresh id and the time stamp.
\<close>

theorem create_appends_request:
  "\<exists>newTransfer.
     create now transfer s = (Inr (), s\<lparr>stock_transfers := stock_transfers s @ [newTransfer]\<rparr>) \<and>
     length (stock_transfers (snd (create now transfer s))) = Suc (length (stock_transfers s)) \<and>
     st_status newTransfer = tr_status transfer \<and>
     st_id newTransfer = ''transfer-'' @ toStringRadix 10 now \<and>
     st_timestamp newTransfer = now \<and>
     st_fromStoreId newTransfer = tr_fromStoreId transfer \<and>
     st_toStoreId newTransfer = tr_toStoreId transfer \<and>
     st_barcode newTransfer = tr_barcode transfer \<and>
     st_productName newTransfer = tr_productName transfer \<and>
     st_quantity newTransfer = tr_quantity transfer \<and>
     st_requestedBy newTransfer = tr_requestedBy transfer \<and>
     st_completedAt newTransfer = tr_completedAt transfer"
  by (rule exI [of _ "last (stock_transfers (snd (create now transfer s)))"])
    (simp add: create_def)

lemma complete_resolved:
  "findIndex (\<lambda>t. st_id t = tid) (stock_transfers s) = Some j \<Longrightarrow>
   complete now tid s =
     (if st_status (stock_transfers s ! j) \<noteq> pending then (Inl TransferNotPending, s)
      else (Inr (), s\<lparr>stock_transfers := (stock_transfers s)
              [j := (stock_transfers s ! j)\<lparr>st_status := completed, st_completedAt := Some now\<rparr>]\<rparr>))"
  by (simp add: complete_def Let_def)

lemma cancel_resolved:
  "findIndex (\<lambda>t. st_id t = tid) (stock_transfers s) = Some j \<Longrightarrow>
   cancel tid s =
     (if st_status (stock_transfers s ! j) \<noteq> pending then (Inl CanOnlyCancelPending, s)
      else (Inr (), s\<lparr>stock_transfers := (stock_transfers s)
              [j := (stock_transfers s ! j)\<lparr>st_status := cancelled\<rparr>]\<rparr>))"
  by (simp add: cancel_def Let_def)

lemma complete_keeps_settled:
  "k < length (stock_transfers s) \<Longrightarrow> st_status (stock_transfers s ! k) \<noteq> pending \<Longrightarrow>
   stock_transfers (snd (complete now tid s)) ! k = stock_transfers s ! k"
proof (cases "findIndex (\<lambda>t. st_id t = tid) (stock_transfers s)")
  case None
  then show ?thesis by (simp add: complete_def)
next
  case (Some a)
  assume settled: "st_status (stock_transfers s ! k) \<noteq> pending"
  show ?thesis
  proof (cases "st_status (stock_transfers s ! a) = pending")
    case True
    with settled have "a \<noteq> k" by auto
    with Some True show ?thesis by (simp add: complete_def Let_def)
  next
    case False
    with Some show ?thesis by (simp add: complete_def Let_def)
  qed
qed

lemma cancel_keeps_settled:
  "k < length (stock_transfers s) \<Longrightarrow> st_status (stock_transfers s ! k) \<noteq> pending \<Longrightarrow>
   stock_transfers (snd (cancel tid s)) ! k = stock_transfers s ! k"
proof (cases "findIndex (\<lambda>t. st_id t = tid) (stock_transfers s)")
  case None
  then show ?thesis by (simp add: cancel_def)
next
  case (Some a)
  assume settled: "st_status (stock_transfers s ! k) \<noteq> pending"
  show ?thesis
  proof (cases "st_status (stock_transfers s ! a) = pending")
    case True
    with settled have "a \<noteq> k" by auto
    with Some True show ?thesis by (simp add: cancel_def Let_def)
  next
    case False
    with Some show ?thesis by (simp add: cancel_def Let_def)
  qed
qed

lemma findIndex_update_same:
  assumes "findIndex P xs = Some j" and "P y"
  shows "findIndex P (xs[j := y]) = Some j"
proof -
  from findIndex_Some_D [OF assms(1)]
  have "j < length xs" and "\<forall>i < j. \<not> P (xs ! i)" by auto
  with assms(2) show ?thesis
    by (intro findIndex_first) auto
qed

lemma toStringRadix_digit: "toStringRadix 10 7 = ''7''" "toStringRadix 10 8 = ''8''"
  by (simp_all add: toStringRadix.simps digit_chars_def)

text \<open>
  Claim C7 (transfer state machine), as stated: every stored transfer that is pending
  can be completed or cancelled. \<open>complete\<close> and \<open>cancel\<close> find the transfer by its id,
  the first one that has it, and ids are made from the clock. Of two transfers filed
  within one millisecond the second is out of reach: here it is stored and pending,
  and both calls on its id fail.
\<close>

theorem transfer_shared_id_counterexample:
  "map st_id (stock_transfers example_twins) = [''transfer-7'', ''transfer-7''] \<and>
   map st_status (stock_transfers example_twins) = [completed, pending] \<and>
   complete 11 (st_id (stock_transfers example_twins ! 1)) example_twins
     = (Inl TransferNotPending, example_twins) \<and>
   cancel (st_id (stock_transfers example_twins ! 1)) example_twins
     = (Inl CanOnlyCancelPending, example_twins)"
  by (simp add: example_twins_def create_def complete_def cancel_def example_request_def
      example_storage_def toStringRadix_digit Let_def)

text \<open>
  Claim C7, amended. Let a stored transfer be the first one with its id (as every
  stored transfer is when the ids are distinct). If its status is not pending,
  \<open>complete\<close> and \<open>cancel\<close> both fail and change nothing. If it is pending, \<open>complete\<close>
  succeeds, sets the status to completed and stamps \<open>completedAt\<close>, and \<open>cancel\<close>
  succeeds and sets the status to cancelled; after either, \<open>complete\<close> and \<open>cancel\<close> on
  the same id fail, so the transfer leaves the pending state at most once. Finally no
  call of \<open>complete\<close> or \<open>cancel\<close>, on whatever id, changes a stored transfer that is
  not pending: completed and cancelled are terminal.
\<close>

theorem transfer_state_machine:
  assumes stored: "j < length (stock_transfers s)"
    and first: "\<forall>i < j. st_id (stock_transfers s ! i) \<noteq> st_id (stock_transfers s ! j)"
  shows
   "(st_status (stock_transfers s ! j) \<noteq> pending \<longrightarrow>
       complete now (st_id (stock_transfers s ! j)) s = (Inl TransferNotPending, s) \<and>
       cancel (st_id (stock_transfers s ! j)) s = (Inl CanOnlyCancelPending, s)) \<and>
    (st_status (stock_transfers s ! j) = pending \<longrightarrow>
       (\<exists>s1 s2.
          complete now (st_id (stock_transfers s ! j)) s = (Inr (), s1) \<and>
          stock_transfers s1 = (stock_transfers s)
            [j := (stock_transfers s ! j)\<lparr>st_status := completed, st_completedAt := Some now\<rparr>] \<and>
          cancel (st_id (stock_transfers s ! j)) s = (Inr (), s2) \<and>
          stock_transfers s2 = (stock_transfers s)
            [j := (stock_transfers s ! j)\<lparr>st_status := cancelled\<rparr>] \<and>
          complete later (st_id (stock_transfers s ! j)) s1 = (Inl TransferNotPending, s1) \<and>
          cancel (st_id (stock_transfers s ! j)) s1 = (Inl CanOnlyCancelPending, s1) \<and>
          complete later (st_id (stock_transfers s ! j)) s2 = (Inl TransferNotPending, s2) \<and>
          cancel (st_id (stock_transfers s ! j)) s2 = (Inl CanOnlyCancelPending, s2))) \<and>
    (\<forall>k < length (stock_transfers s). st_status (stock_transfers s ! k) \<noteq> pending \<longrightarrow>
       stock_transfers (snd (complete now tid s)) ! k = stock_transfers s ! k \<and>
       stock_transfers (snd (cancel tid s)) ! k = stock_transfers s ! k)"
proof -
  let ?ts = "stock_transfers s"
  let ?t = "?ts ! j"
  let ?P = "\<lambda>t. st_id t = st_id ?t"
  have idx: "findIndex ?P ?ts = Some j"
    using stored first by (intro findIndex_first) auto
  have settled: "st_status ?t \<noteq> pending \<longrightarrow>
       complete now (st_id ?t) s = (Inl TransferNotPending, s) \<and>
       cancel (st_id ?t) s = (Inl CanOnlyCancelPending, s)"
    by (simp add: complete_resolved [OF idx] cancel_resolved [OF idx])
  have once: "\<exists>s1 s2.
          complete now (st_id ?t) s = (Inr (), s1) \<and>
          stock_transfers s1 = ?ts[j := ?t\<lparr>st_status := completed, st_completedAt := Some now\<rparr>] \<and>
          cancel (st_id ?t) s = (Inr (), s2) \<and>
          stock_transfers s2 = ?ts[j := ?t\<lparr>st_status := cancelled\<rparr>] \<and>
          complete later (st_id ?t) s1 = (Inl TransferNotPending, s1) \<and>
          cancel (st_id ?t) s1 = (Inl CanOnlyCancelPending, s1) \<and>
          complete later (st_id ?t) s2 = (Inl TransferNotPending, s2) \<and>
          cancel (st_id ?t) s2 = (Inl CanOnlyCancelPending, s2)"
    if p: "st_status ?t = pending"
  proof -
    let ?c = "?t\<lparr>st_status := completed, st_completedAt := Some now\<rparr>"
    let ?x = "?t\<lparr>st_status := cancelled\<rparr>"
    let ?s1 = "s\<lparr>stock_transfers := ?ts[j := ?c]\<rparr>"
    let ?s2 = "s\<lparr>stock_transfers := ?ts[j := ?x]\<rparr>"
    have i1: "findIndex ?P (stock_transfers ?s1) = Some j"
      using findIndex_update_same [OF idx, of ?c] by simp
    have i2: "findIndex ?P (stock_transfers ?s2) = Some j"
      using findIndex_update_same [OF idx, of ?x] by simp
    have c: "complete now (st_id ?t) s = (Inr (), ?s1)"
      using p by (simp add: complete_resolved [OF idx])
    have x: "cancel (st_id ?t) s = (Inr (), ?s2)"
      using p by (simp add: cancel_resolved [OF idx])
    have "complete later (st_id ?t) ?s1 = (Inl TransferNotPending, ?s1)"
      "cancel (st_id ?t) ?s1 = (Inl CanOnlyCancelPending, ?s1)"
      using stored by (simp_all add: complete_resolved [OF i1] cancel_resolved [OF i1])
    moreover have "complete later (st_id ?t) ?s2 = (Inl TransferNotPending, ?s2)"
      "cancel (st_id ?t) ?s2 = (Inl CanOnlyCancelPending, ?s2)"
      using stored by (simp_all add: complete_resolved [OF i2] cancel_resolved [OF i2])
    ultimately show ?thesis
      using c x by (intro exI [of _ ?s1] exI [of _ ?s2]) simp
  qed
  have terminal: "\<forall>k < length ?ts. st_status (?ts ! k) \<noteq> pending \<longrightarrow>
       stock_transfers (snd (complete now tid s)) ! k = ?ts ! k \<and>
       stock_transfers (snd (cancel tid s)) ! k = ?ts ! k"
    using complete_keeps_settled cancel_keeps_settled by blast
  from settled once terminal show ?thesis by blast
qed


theorem transfer_state_machine_witness:
  "(\<exists>s1 s2.
      complete 9 ''transfer-8'' example_transfers = (Inr (), s1) \<and>
      map st_status (stock_transfers s1) = [pending, completed] \<and>
      map st_completedAt (stock_transfers s1) = [None, Some 9] \<and>
      cancel ''transfer-8'' example_transfers = (Inr (), s2) \<and>
      map st_status (stock_transfers s2) = [pending, cancelled] \<and>
      complete 11 ''transfer-8'' s1 = (Inl TransferNotPending, s1) \<and>
      cancel ''transfer-8'' s1 = (Inl CanOnlyCancelPending, s1) \<and>
      complete 11 ''transfer-8'' s2 = (Inl TransferNotPending, s2) \<and>
      cancel ''transfer-8'' s2 = (Inl CanOnlyCancelPending, s2))"
proof -
  have ts: "stock_transfers example_transfers =
      [\<lparr>st_id = ''transfer-7'', st_fromStoreId = ''store-001'', st_toStoreId = ''store-002'',
        st_fromStoreName = ''Main Store'', st_toStoreName = ''Branch'', st_barcode = ''123'',
        st_productName = ''Pen'', st_quantity = 4, st_status = pending,
        st_requestedBy = ''Admin'', st_completedAt = None, st_timestamp = 7\<rparr>,
       \<lparr>st_id = ''transfer-8'', st_fromStoreId = ''store-001'', st_toStoreId = ''store-002'',
        st_fromStoreName = ''Main Store'', st_toStoreName = ''Branch'', st_barcode = ''123'',
        st_productName = ''Pen'', st_quantity = 4, st_status = pending,
        st_requestedBy = ''Admin'', st_completedAt = None, st_timestamp = 8\<rparr>]"
    by (simp add: example_transfers_def create_def example_request_def example_storage_def
        toStringRadix_digit)
  have stored: "1 < length (stock_transfers example_transfers)"
    by (simp add: ts)
  have first: "\<forall>i < 1. st_id (stock_transfers example_transfers ! i)
                 \<noteq> st_id (stock_transfers example_transfers ! 1)"
    by (simp add: ts)
  from transfer_state_machine [OF stored first, of 9 11 "''transfer-8''"]
  show ?thesis
    by (auto simp: ts)
qed

section \<open>CashierView.handleScan\<close>

lemma map_if_distinct_update:
  "distinct (map f xs) \<Longrightarrow> findIndex (\<lambda>x. f x = b) xs = Some i \<Longrightarrow>
   map (\<lambda>x. if f x = b then g x else x) xs = xs[i := g (xs ! i)]"
proof (induction xs arbitrary: i)
  case Nil
  then show ?case by simp
next
  case (Cons x xs)
  show ?case
  proof (cases "f x = b")
    case True
    with Cons.prems(2) have "i = 0" by simp
    from Cons.prems(1) True have "b \<notin> f ` set xs" by simp
    then have "\<forall>y \<in> set xs. f y \<noteq> b" by blast
    then have "map (\<lambda>x. if f x = b then g x else x) xs = xs"
      by (simp add: map_idI)
    with True \<open>i = 0\<close> show ?thesis by simp
  next
    case False
    with Cons.prems obtain k where k: "findIndex (\<lambda>x. f x = b) xs = Some k" "i = Suc k"
      by (auto split: option.splits)
    with Cons.IH [of k] Cons.prems(1) False show ?thesis by simp
  qed
qed

lemma handleScan_distinct:
  assumes "distinct (map (\<lambda>item. p_barcode (ci_product item)) cart)"
  shows "distinct (map (\<lambda>item. p_barcode (ci_product item)) (snd (handleScan s cart barcode)))"
proof -
  have same: "map ((\<lambda>item. p_barcode (ci_product item)) \<circ>
        (\<lambda>item. if p_barcode (ci_product item) = barcode
                  then item\<lparr>ci_quantity := ci_quantity item + 1\<rparr> else item)) cart
      = map (\<lambda>item. p_barcode (ci_product item)) cart"
    by (induction cart) simp_all
  have new: "p_barcode product = barcode \<and> barcode \<notin> (\<lambda>item. p_barcode (ci_product item)) ` set cart"
    if "findByBarcode s barcode = Some product"
      and "find (\<lambda>item. p_barcode (ci_product item) = barcode) cart = None"
    for product
    using that by (auto simp: findByBarcode_def find_Some_iff find_None_iff)
  show ?thesis
  proof (cases "findByBarcode s barcode")
    case None
    with assms show ?thesis by (simp add: handleScan_def)
  next
    case (Some product)
    show ?thesis
    proof (cases "find (\<lambda>item. p_barcode (ci_product item) = barcode) cart")
      case None
      from new [OF Some None] assms Some None show ?thesis
        by (simp add: handleScan_def)
    next
      case (Some existingItem)
      with assms \<open>findByBarcode s barcode = Some product\<close> show ?thesis
        by (simp add: handleScan_def same)
    qed
  qed
qed

text \<open>
  Claim C4 (scan semantics). A scan of a barcode no product has shows NotRegistered and
  leaves the cart as it is. When the cart's item for the barcode has a quantity at or
  above the product's stock the scan shows StockLimitExceeded and leaves the cart as it
  is. When the cart has no item for the barcode and the product's stock is 0 the scan
  shows OutOfStock and leaves the cart as it is. Otherwise the scan either adds 1 to the
  quantity of the cart's items for the barcode and to nothing else (to exactly one item,
  the cart holding one item per barcode), or appends a new item with quantity 1. The
  cart's item for a barcode is the one \<open>cart.find\<close> returns; a cart that holds one item
  per barcode still does after any scan.
\<close>

theorem handleScan_semantics:
  "(findByBarcode s barcode = None \<longrightarrow> handleScan s cart barcode = (NotRegistered, cart)) \<and>
   (findByBarcode s barcode = Some product \<and>
    find (\<lambda>item. p_barcode (ci_product item) = barcode) cart = Some existingItem \<and>
    p_stock product \<le> ci_quantity existingItem \<longrightarrow>
      handleScan s cart barcode
        = (StockLimitExceeded (p_name product) (p_stock product), cart)) \<and>
   (findByBarcode s barcode = Some product \<and>
    find (\<lambda>item. p_barcode (ci_product item) = barcode) cart = None \<and>
    p_stock product = 0 \<longrightarrow>
      handleScan s cart barcode = (OutOfStock (p_name product), cart)) \<and>
   (findByBarcode s barcode = Some product \<and>
    find (\<lambda>item. p_barcode (ci_product item) = barcode) cart = Some existingItem \<and>
    ci_quantity existingItem < p_stock product \<longrightarrow>
      handleScan s cart barcode
        = (AddedOneMore (p_name product),
           map (\<lambda>item. if p_barcode (ci_product item) = barcode
                        then item\<lparr>ci_quantity := ci_quantity item + 1\<rparr> else item) cart) \<and>
      (distinct (map (\<lambda>item. p_barcode (ci_product item)) cart) \<longrightarrow>
         (\<exists>i. findIndex (\<lambda>item. p_barcode (ci_product item) = barcode) cart = Some i \<and>
              cart ! i = existingItem \<and>
              snd (handleScan s cart barcode)
                = cart[i := existingItem\<lparr>ci_quantity := ci_quantity existingItem + 1\<rparr>]))) \<and>
   (findByBarcode s barcode = Some product \<and>
    find (\<lambda>item. p_barcode (ci_product item) = barcode) cart = None \<and>
    p_stock product \<noteq> 0 \<longrightarrow>
      handleScan s cart barcode
        = (AddedToCart (p_name product), cart @ [\<lparr>ci_product = product, ci_quantity = 1\<rparr>])) \<and>
   (distinct (map (\<lambda>item. p_barcode (ci_product item)) cart) \<longrightarrow>
      distinct (map (\<lambda>item. p_barcode (ci_product item)) (snd (handleScan s cart barcode))))"
proof -
  let ?P = "\<lambda>item. p_barcode (ci_product item) = barcode"
  let ?inc = "\<lambda>item. item\<lparr>ci_quantity := ci_quantity item + 1\<rparr>"
  have one: "\<exists>i. findIndex ?P cart = Some i \<and> cart ! i = existingItem \<and>
      map (\<lambda>item. if ?P item then ?inc item else item) cart = cart[i := ?inc existingItem]"
    if found: "find ?P cart = Some existingItem"
      and d: "distinct (map (\<lambda>item. p_barcode (ci_product item)) cart)"
  proof -
    from found obtain i where i: "findIndex ?P cart = Some i" "cart ! i = existingItem"
      by (auto simp: find_findIndex split: option.splits)
    from map_if_distinct_update [OF d i(1), of ?inc] i show ?thesis by simp
  qed
  have a: "findByBarcode s barcode = None \<longrightarrow> handleScan s cart barcode = (NotRegistered, cart)"
    by (simp add: handleScan_def)
  have b: "findByBarcode s barcode = Some product \<and> find ?P cart = Some existingItem \<and>
      p_stock product \<le> ci_quantity existingItem \<longrightarrow>
      handleScan s cart barcode = (StockLimitExceeded (p_name product) (p_stock product), cart)"
    by (simp add: handleScan_def)
  have c: "findByBarcode s barcode = Some product \<and> find ?P cart = None \<and>
      p_stock product = 0 \<longrightarrow> handleScan s cart barcode = (OutOfStock (p_name product), cart)"
    by (simp add: handleScan_def)
  have d1: "findByBarcode s barcode = Some product \<and> find ?P cart = Some existingItem \<and>
      ci_quantity existingItem < p_stock product \<longrightarrow>
      handleScan s cart barcode
        = (AddedOneMore (p_name product), map (\<lambda>item. if ?P item then ?inc item else item) cart)"
    by (simp add: handleScan_def)
  have e: "findByBarcode s barcode = Some product \<and> find ?P cart = None \<and>
      p_stock product \<noteq> 0 \<longrightarrow>
      handleScan s cart barcode
        = (AddedToCart (p_name product), cart @ [\<lparr>ci_product = product, ci_quantity = 1\<rparr>])"
    by (simp add: handleScan_def)
  have d: "findByBarcode s barcode = Some product \<and> find ?P cart = Some existingItem \<and>
      ci_quantity existingItem < p_stock product \<longrightarrow>
      handleScan s cart barcode
        = (AddedOneMore (p_name product), map (\<lambda>item. if ?P item then ?inc item else item) cart) \<and>
      (distinct (map (\<lambda>item. p_barcode (ci_product item)) cart) \<longrightarrow>
         (\<exists>i. findIndex ?P cart = Some i \<and> cart ! i = existingItem \<and>
              snd (handleScan s cart barcode) = cart[i := ?inc existingItem]))"
  proof (intro impI conjI)
    assume p: "findByBarcode s barcode = Some product \<and> find ?P cart = Some existingItem \<and>
      ci_quantity existingItem < p_stock product"
    with d1 show run: "handleScan s cart barcode
        = (AddedOneMore (p_name product), map (\<lambda>item. if ?P item then ?inc item else item) cart)"
      by (rule mp)
    assume "distinct (map (\<lambda>item. p_barcode (ci_product item)) cart)"
    from one [OF _ this] p run
    show "\<exists>i. findIndex ?P cart = Some i \<and> cart ! i = existingItem \<and>
              snd (handleScan s cart barcode) = cart[i := ?inc existingItem]"
      by simp
  qed
  have f: "distinct (map (\<lambda>item. p_barcode (ci_product item)) cart) \<longrightarrow>
      distinct (map (\<lambda>item. p_barcode (ci_product item)) (snd (handleScan s cart barcode)))"
    using handleScan_distinct [of cart s barcode] by (rule impI)
  show ?thesis
    by (rule conjI [OF a conjI [OF b conjI [OF c conjI [OF d conjI [OF e f]]]]])
qed

theorem handleScan_semantics_witness:
  "handleScan example_shelf [] ''999'' = (NotRegistered, []) \<and>
   handleScan example_shelf [] ''123'' = (AddedToCart ''Pen'', cartOf 1) \<and>
   handleScan example_shelf (cartOf 4) ''123'' = (AddedOneMore ''Pen'', cartOf 5) \<and>
   handleScan example_shelf (cartOf 5) ''123'' = (StockLimitExceeded ''Pen'' 5, cartOf 5) \<and>
   handleScan example_shelf (cartOf 5) ''789'' = (OutOfStock ''Ink'', cartOf 5)"
proof -
  note defs = example_shelf_def example_product_def example_ink_def cartOf_def findByBarcode_def
  have pen: "findByBarcode example_shelf ''123'' = Some example_product"
    and ink: "findByBarcode example_shelf ''789'' = Some example_ink"
    and none: "findByBarcode example_shelf ''999'' = None"
    by (simp_all add: defs)
  have in_cart: "find (\<lambda>item. p_barcode (ci_product item) = ''123'') (cartOf q)
      = Some \<lparr>ci_product = example_product, ci_quantity = q\<rparr>" for q
    by (simp add: defs)
  have no_ink: "find (\<lambda>item. p_barcode (ci_product item) = ''789'') (cartOf q) = None" for q
    by (simp add: defs)
  have a: "handleScan example_shelf [] ''999'' = (NotRegistered, [])"
    using handleScan_semantics [where s = example_shelf and cart = "[]" and barcode = "''999''"]
      none by simp
  have e: "handleScan example_shelf [] ''123'' = (AddedToCart ''Pen'', cartOf 1)"
    using handleScan_semantics [where s = example_shelf and cart = "[]" and barcode = "''123''"
        and product = example_product] pen
    by (simp add: example_product_def cartOf_def)
  have d: "handleScan example_shelf (cartOf 4) ''123'' = (AddedOneMore ''Pen'', cartOf 5)"
    using handleScan_semantics [where s = example_shelf and cart = "cartOf 4"
        and barcode = "''123''" and product = example_product
        and existingItem = "\<lparr>ci_product = example_product, ci_quantity = 4\<rparr>"] pen in_cart [of 4]
    by (simp add: example_product_def cartOf_def)
  have b: "handleScan example_shelf (cartOf 5) ''123'' = (StockLimitExceeded ''Pen'' 5, cartOf 5)"
    using handleScan_semantics [where s = example_shelf and cart = "cartOf 5"
        and barcode = "''123''" and product = example_product
        and existingItem = "\<lparr>ci_product = example_product, ci_quantity = 5\<rparr>"] pen in_cart [of 5]
    by (simp add: example_product_def)
  have c: "handleScan example_shelf (cartOf 5) ''789'' = (OutOfStock ''Ink'', cartOf 5)"
    using handleScan_semantics [where s = example_shelf and cart = "cartOf 5"
        and barcode = "''789''" and product = example_ink] ink no_ink [of 5]
    by (simp add: example_ink_def)
  from a e d b c show ?thesis by simp
qed

section \<open>Stock conservation\<close>

lemma find_stock_update:
  "findIndex (\<lambda>p. p_barcode p = b0) ps = Some i \<Longrightarrow>
   find (\<lambda>p. p_barcode p = b) (ps[i := (ps ! i)\<lparr>p_stock := x\<rparr>]) =
     (if b = b0 then Some ((ps ! i)\<lparr>p_stock := x\<rparr>) else find (\<lambda>p. p_barcode p = b) ps)"
proof (induction ps arbitrary: i)
  case Nil
  then show ?case by simp
next
  case (Cons p ps)
  show ?case
  proof (cases "p_barcode p = b0")
    case True
    with Cons.prems show ?thesis by auto
  next
    case False
    with Cons.prems obtain k where k: "findIndex (\<lambda>p. p_barcode p = b0) ps = Some k" "i = Suc k"
      by (auto split: option.splits)
    with Cons.IH [OF k(1)] False show ?thesis by auto
  qed
qed

text \<open>Stock conservation of the second loop: the product a barcode resolves to loses the
  quantities of all the lines that name the barcode.\<close>

lemma deductStock_find:
  "find (\<lambda>p. p_barcode p = b) (deductStock ps items) =
     map_option
       (\<lambda>p. p\<lparr>p_stock := p_stock p
                 - sum_list (map si_quantity (filter (\<lambda>i. si_barcode i = b) items))\<rparr>)
       (find (\<lambda>p. p_barcode p = b) ps)"
proof (induction items arbitrary: ps)
  case Nil
  then show ?case by (cases "find (\<lambda>p. p_barcode p = b) ps") simp_all
next
  case (Cons item items)
  show ?case
  proof (cases "findIndex (\<lambda>p. p_barcode p = si_barcode item) ps")
    case None
    then have "find (\<lambda>p. p_barcode p = si_barcode item) ps = None"
      by (simp add: find_findIndex)
    with None Cons.IH [of ps] show ?thesis
      by (cases "si_barcode item = b") auto
  next
    case (Some i)
    then have f: "find (\<lambda>p. p_barcode p = si_barcode item) ps = Some (ps ! i)"
      by (simp add: find_findIndex)
    show ?thesis
      using Some f Cons.IH [of "ps[i := (ps ! i)\<lparr>p_stock := p_stock (ps ! i) - si_quantity item\<rparr>]"]
      by (cases "find (\<lambda>p. p_barcode p = b) ps")
        (auto simp: find_stock_update [OF Some] algebra_simps)
  qed
qed

lemma processSale_stock_conservation:
  assumes "processSale now rnd items pm amountPaid cashier storeId storeName s = (Inr r, s')"
  shows "map_option p_stock (findByBarcode s' b) =
     map_option
       (\<lambda>p. p_stock p - sum_list (map si_quantity (filter (\<lambda>i. si_barcode i = b) items)))
       (findByBarcode s b)"
proof -
  from assms have "products s' = deductStock (products s) items"
    by (auto simp: processSale_def Let_def split: if_splits option.splits)
  then show ?thesis
    by (simp add: findByBarcode_def deductStock_find option.map_comp comp_def)
qed

lemma restock_stock_conservation:
  assumes "restock now barcode quantity performedBy s = (Inr r, s')"
  shows "map_option p_stock (findByBarcode s' b) =
     map_option (\<lambda>p. p_stock p + (if b = barcode then quantity else 0)) (findByBarcode s b)"
proof -
  from assms obtain i where i: "findIndex (\<lambda>p. p_barcode p = barcode) (products s) = Some i"
    and s': "products s' = (products s)[i := (products s ! i)
                \<lparr>p_stock := p_stock (products s ! i) + quantity\<rparr>]"
    by (auto simp: restock_def Let_def split: if_splits option.splits)
  from i have "find (\<lambda>p. p_barcode p = barcode) (products s) = Some (products s ! i)"
    by (simp add: find_findIndex)
  then show ?thesis
    by (cases "findByBarcode s b")
      (auto simp: findByBarcode_def s' find_stock_update [OF i])
qed

lemma filter_distinct_key:
  "distinct (map f xs) \<Longrightarrow>
   filter (\<lambda>x. f x = b) xs = (case find (\<lambda>x. f x = b) xs of None \<Rightarrow> [] | Some x \<Rightarrow> [x])"
proof (induction xs)
  case Nil
  then show ?case by simp
next
  case (Cons x xs)
  show ?case
  proof (cases "f x = b")
    case True
    with Cons.prems have "b \<notin> f ` set xs" by simp
    then have "filter (\<lambda>x. f x = b) xs = []"
      by (auto simp: filter_empty_conv)
    with True show ?thesis by simp
  next
    case False
    with Cons show ?thesis by simp
  qed
qed

text \<open>With one line per barcode the sale keeps every stock non-negative.\<close>

lemma processSale_nonneg_distinct:
  assumes run: "processSale now rnd items pm amountPaid cashier storeId storeName s = (Inr r, s')"
    and d: "distinct (map si_barcode items)"
    and before: "findByBarcode s b = Some p" "0 \<le> p_stock p"
    and after: "findByBarcode s' b = Some p'"
  shows "0 \<le> p_stock p'"
proof -
  from run have ok: "checkStock (products s) items = None"
    by (auto simp: processSale_def Let_def split: if_splits option.splits)
  from processSale_stock_conservation [OF run, of b] before after
  have eq: "p_stock p' = p_stock p
      - sum_list (map si_quantity (filter (\<lambda>i. si_barcode i = b) items))"
    by simp
  show ?thesis
  proof (cases "find (\<lambda>i. si_barcode i = b) items")
    case None
    with eq before(2) show ?thesis
      by (simp add: filter_distinct_key [OF d])
  next
    case (Some item)
    then have "item \<in> set items" "si_barcode item = b"
      by (auto simp: find_Some_iff)
    with ok before(1) have "si_quantity item \<le> p_stock p"
      by (auto simp: checkStock_None_iff findByBarcode_def)
    with eq Some show ?thesis
      by (simp add: filter_distinct_key [OF d])
  qed
qed

text \<open>
  Claim C2 (stock conservation and non-negativity). The conservation half holds, as the
  lemmas above show for each operation. The non-negativity half fails: the first loop of
  \<open>processSale\<close> checks every line against the stock as stored, the second subtracts
  line after line, so two lines of 3 units of a product with 5 in stock both pass and
  the sale succeeds, leaving a stock of -1.
\<close>

theorem processSale_repeated_barcode_negative_stock:
  "map p_stock (products example_storage) = [5, 2] \<and>
   (\<exists>sale change s'.
      processSale 7 ''ABC'' [lineOf example_product 3, lineOf example_product 3] Cash 60
        ''bob'' ''store-001'' ''Main Store'' example_storage = (Inr (sale, change), s') \<and>
      map p_stock (products s') = [- 1, 2])"
  by (simp add: processSale_def Let_def example_defs taxRate_def)

section \<open>Objects as dictionaries\<close>

lemma obj_get_set: "obj_get (obj_set k v obj) k' = (if k' = k then Some v else obj_get obj k')"
  by (induction obj) (auto simp: obj_get_def)

lemma keys_obj_set: "fst ` set (obj_set k v obj) = insert k (fst ` set obj)"
  by (induction obj) auto

lemma distinct_obj_set: "distinct (map fst obj) \<Longrightarrow> distinct (map fst (obj_set k v obj))"
  by (induction obj) (auto simp: keys_obj_set)

lemma obj_get_keys: "obj_get obj k = None \<longleftrightarrow> k \<notin> fst ` set obj"
  by (simp add: obj_get_def map_of_eq_None_iff)

lemma mset_filter_split: "mset (filter P xs) + mset (filter (\<lambda>x. \<not> P x) xs) = mset xs"
  by (induction xs) auto

lemma mset_objectValues: "mset (objectValues obj) = mset (map snd obj)"
proof -
  let ?Q = "\<lambda>e::string \<times> 'a. arrayIndex (fst e) = None"
  let ?key = "\<lambda>e::string \<times> 'a. case arrayIndex (fst e) of None \<Rightarrow> 0 | Some n \<Rightarrow> n"
  have "mset (sort_key ?key (filter (\<lambda>e. \<not> ?Q e) obj) @ filter ?Q obj)
      = mset (filter ?Q obj) + mset (filter (\<lambda>e. \<not> ?Q e) obj)"
    by simp
  also have "\<dots> = mset obj"
    by (rule mset_filter_split)
  finally have e: "mset (sort_key ?key (filter (\<lambda>e. \<not> ?Q e) obj) @ filter ?Q obj) = mset obj" .
  have "mset (objectValues obj)
      = image_mset snd (mset (sort_key ?key (filter (\<lambda>e. \<not> ?Q e) obj) @ filter ?Q obj))"
    by (simp only: objectValues_def mset_map)
  also have "\<dots> = image_mset snd (mset obj)"
    by (simp only: e)
  also have "\<dots> = mset (map snd obj)"
    by simp
  finally show ?thesis .
qed

lemma sum_list_objectValues:
  fixes obj :: "'a::comm_monoid_add js_object"
  shows "sum_list (objectValues obj) = sum_list (map snd obj)"
proof -
  have "sum_list (objectValues obj) = sum_mset (mset (objectValues obj))"
    by (simp only: sum_mset_sum_list)
  also have "\<dots> = sum_mset (mset (map snd obj))"
    by (simp only: mset_objectValues)
  also have "\<dots> = sum_list (map snd obj)"
    by (simp only: sum_mset_sum_list)
  finally show ?thesis .
qed

lemma length_objectValues: "length (objectValues obj) = length obj"
proof -
  have "length (objectValues obj) = size (mset (objectValues obj))"
    by simp
  also have "\<dots> = size (mset (map snd obj))"
    by (simp only: mset_objectValues)
  finally show ?thesis by simp
qed

lemma set_objectValues: "set (objectValues obj) = snd ` set obj"
proof -
  have "set (objectValues obj) = set_mset (mset (objectValues obj))"
    by simp
  also have "\<dots> = set_mset (mset (map snd obj))"
    by (simp only: mset_objectValues)
  finally show ?thesis by simp
qed

lemma values_by_key:
  "distinct (map fst obj) \<Longrightarrow> map snd obj = map (\<lambda>k. the (obj_get obj k)) (map fst obj)"
proof -
  assume d: "distinct (map fst obj)"
  have "snd e = the (obj_get obj (fst e))" if "e \<in> set obj" for e
    using map_of_is_SomeI [OF d, of "fst e" "snd e"] that by (simp add: obj_get_def)
  then have "map snd obj = map ((\<lambda>k. the (obj_get obj k)) \<circ> fst) obj"
    by simp
  then show ?thesis by (simp only: map_map)
qed

section \<open>Sales forecast\<close>

lemma bucket_absent:
  "d \<notin> (\<lambda>sale. tds (sr_timestamp sale)) ` set window \<Longrightarrow> bucket tds window d = 0"
proof -
  assume "d \<notin> (\<lambda>sale. tds (sr_timestamp sale)) ` set window"
  then have "filter (\<lambda>sale. tds (sr_timestamp sale) = d) window = []"
    by (auto simp: filter_empty_conv)
  then show ?thesis by (simp add: bucket_def)
qed

lemma bucket_snoc:
  "bucket tds (window @ [sale]) d =
     bucket tds window d + (if tds (sr_timestamp sale) = d then sr_total sale else 0)"
  by (simp add: bucket_def)

lemma dailySales_snoc:
  "dailySales tds (window @ [sale]) =
     obj_set (tds (sr_timestamp sale))
       ((case obj_get (dailySales tds window) (tds (sr_timestamp sale)) of
           None \<Rightarrow> 0 | Some v \<Rightarrow> v) + sr_total sale)
       (dailySales tds window)"
  by (simp add: dailySales_def Let_def)

lemma dailySales_invariant:
  "distinct (map fst (dailySales tds window)) \<and>
   (\<forall>d. obj_get (dailySales tds window) d =
      (if d \<in> (\<lambda>sale. tds (sr_timestamp sale)) ` set window
       then Some (bucket tds window d) else None))"
proof (induction window rule: rev_induct)
  case Nil
  then show ?case by (simp add: dailySales_def obj_get_def)
next
  case (snoc sale window)
  then show ?case
    by (auto simp: dailySales_snoc distinct_obj_set obj_get_set bucket_snoc bucket_absent)
qed

lemma dailySales_keys:
  "fst ` set (dailySales tds window) = (\<lambda>sale. tds (sr_timestamp sale)) ` set window"
proof -
  have "k \<in> fst ` set (dailySales tds window)
      \<longleftrightarrow> k \<in> (\<lambda>sale. tds (sr_timestamp sale)) ` set window" for k
    using dailySales_invariant [of tds window] obj_get_keys [of "dailySales tds window" k]
    by (metis option.distinct(1))
  then show ?thesis by blast
qed

lemma dailySales_values:
  "map snd (dailySales tds window) = map (bucket tds window) (map fst (dailySales tds window))"
proof -
  have "the (obj_get (dailySales tds window) k) = bucket tds window k"
    if "k \<in> set (map fst (dailySales tds window))" for k
    using that dailySales_invariant [of tds window] dailySales_keys [of tds window]
    by simp
  then show ?thesis
    using dailySales_invariant [of tds window]
    by (simp add: values_by_key)
qed

lemma dailySales_sum:
  "sum_list (objectValues (dailySales tds window)) = sum_list (dayBuckets tds window)"
proof -
  let ?D = "dailySales tds window"
  let ?days = "map (\<lambda>sale. tds (sr_timestamp sale)) window"
  have d: "distinct (map fst ?D)"
    using dailySales_invariant [of tds window] by simp
  have "sum_list (objectValues ?D) = sum_list (map (bucket tds window) (map fst ?D))"
    by (simp only: sum_list_objectValues dailySales_values)
  also have "\<dots> = sum (bucket tds window) (set (map fst ?D))"
    using d by (rule sum_list_distinct_conv_sum_set)
  also have "set (map fst ?D) = set (remdups ?days)"
    using dailySales_keys [of tds window] by simp
  also have "sum (bucket tds window) (set (remdups ?days))
      = sum_list (map (bucket tds window) (remdups ?days))"
    by (rule sum_list_distinct_conv_sum_set [symmetric]) simp
  also have "\<dots> = sum_list (dayBuckets tds window)"
    by (simp add: dayBuckets_def bucket_def [abs_def])
  finally show ?thesis .
qed

lemma dailySales_length:
  "length (objectValues (dailySales tds window)) = length (dayBuckets tds window)"
proof -
  let ?D = "dailySales tds window"
  let ?days = "map (\<lambda>sale. tds (sr_timestamp sale)) window"
  have d: "distinct (map fst ?D)"
    using dailySales_invariant [of tds window] by simp
  have "length (objectValues ?D) = length (map fst ?D)"
    by (simp add: length_objectValues)
  also have "\<dots> = Finite_Set.card (set (map fst ?D))"
    using distinct_card [OF d] by simp
  also have "set (map fst ?D) = set ?days"
    using dailySales_keys [of tds window] by simp
  also have "Finite_Set.card (set ?days) = length (remdups ?days)"
    by (simp add: length_remdups_card_conv)
  also have "\<dots> = length (dayBuckets tds window)"
    by (simp add: dayBuckets_def)
  finally show ?thesis .
qed

text \<open>
  Claim C8 (forecast). A window of fewer than 7 sales gives the insufficient-data
  sentinel, \<open>null\<close>, and no error. A window of at least 7 sales gives a forecast whose
  \<open>averageDaily\<close> is the arithmetic mean of the revenue buckets, one per calendar day
  with a sale, and whose \<open>predictedWeekly\<close> is \<open>averageDaily\<close> times 7.
\<close>

theorem forecast_mean_of_day_buckets:
  "(length window < 7 \<longrightarrow> forecast toDateString random window = None) \<and>
   (7 \<le> length window \<longrightarrow>
      (\<exists>f. forecast toDateString random window = Some f \<and>
           averageDaily f = arithmeticMean (dayBuckets toDateString window) \<and>
           predictedWeekly f = averageDaily f * 7))"
  by (simp add: forecast_def Let_def arithmeticMean_def foldl_add_sum_list
      dailySales_sum dailySales_length)

lemmas eval_defs =
  saleOf_def example_window_def example_day_def example_busy_window_def example_catalog_def
  stocked_def example_defs recommendations_def productSalesOf_def addItem_def obj_get_def
  obj_addSold_def objectValues_def arrayIndex_def withVelocity_def needsRestock_def
  toStringRadix.simps digit_chars_def Let_def less_jsnum_def
  flaggedProducts_def flagged_def daysRemaining_def currentStock_def unitsSold_def
  windowItems_def dayBuckets_def

lemma example_buckets: "dayBuckets example_day example_window = [50, 20]"
  by (simp add: eval_defs)

lemma example_window_length: "length example_window = 7"
  by (simp add: example_window_def)

theorem forecast_mean_of_day_buckets_witness:
  "forecast example_day (\<lambda>i. 1 / 2) (take 3 example_window) = None \<and>
   (\<exists>f. forecast example_day (\<lambda>i. 1 / 2) example_window = Some f \<and>
        averageDaily f = 35 \<and> predictedWeekly f = 245)"
  using forecast_mean_of_day_buckets [of "take 3 example_window" example_day "\<lambda>i. 1 / 2"]
    forecast_mean_of_day_buckets [of example_window example_day "\<lambda>i. 1 / 2"]
  by (auto simp: example_buckets arithmeticMean_def example_window_length)

section \<open>Restock recommendations\<close>

lemma foldl_concat_map:
  "foldl (\<lambda>a x. foldl f a (g x)) a xs = foldl f a (concat (map g xs))"
  by (induction xs arbitrary: a) simp_all

lemma productSalesOf_flat:
  "productSalesOf ps window = foldl (addItem ps) [] (windowItems window)"
  by (simp add: productSalesOf_def windowItems_def foldl_concat_map)

lemma keys_obj_addSold: "map fst (obj_addSold k q obj) = map fst obj"
  by (induction obj) (auto simp: obj_addSold_def)

lemma obj_get_addSold:
  "obj_get (obj_addSold k q obj) k' =
     (if k' = k then map_option (\<lambda>v. v\<lparr>ps_sold := ps_sold v + q\<rparr>) (obj_get obj k)
      else obj_get obj k')"
  by (induction obj) (auto simp: obj_addSold_def obj_get_def)

lemma soldOf_absent: "b \<notin> si_barcode ` set its \<Longrightarrow> soldOf its b = 0"
proof -
  assume "b \<notin> si_barcode ` set its"
  then have "filter (\<lambda>i. si_barcode i = b) its = []"
    by (auto simp: filter_empty_conv)
  then show ?thesis by (simp add: soldOf_def)
qed

lemma soldOf_snoc:
  "soldOf (its @ [x]) b = soldOf its b + (if si_barcode x = b then si_quantity x else 0)"
  by (simp add: soldOf_def)

text \<open>The dictionary built from lines none of which names an inherited member.\<close>

lemma addItem_invariant:
  assumes "\<forall>x \<in> set its. si_barcode x \<notin> set objectPrototypeKeys"
  shows "distinct (map fst (foldl (addItem ps) [] its)) \<and>
   (\<forall>b. (obj_get (foldl (addItem ps) [] its) b = None \<longleftrightarrow> b \<notin> si_barcode ` set its) \<and>
        (\<forall>v. obj_get (foldl (addItem ps) [] its) b = Some v \<longrightarrow>
             ps_sold v = soldOf its b \<and> ps_currentStock v = currentStock ps b))"
  using assms
proof (induction its rule: rev_induct)
  case Nil
  then show ?case by (simp add: obj_get_def)
next
  case (snoc x its)
  let ?P = "foldl (addItem ps) [] its"
  let ?k = "si_barcode x"
  from snoc.prems have own: "?k \<notin> set objectPrototypeKeys"
    and rest: "\<forall>x \<in> set its. si_barcode x \<notin> set objectPrototypeKeys"
    by simp_all
  from snoc.IH [OF rest] have d: "distinct (map fst ?P)"
    and absent: "\<And>b. obj_get ?P b = None \<longleftrightarrow> b \<notin> si_barcode ` set its"
    and vals: "\<And>b v. obj_get ?P b = Some v \<Longrightarrow>
                 ps_sold v = soldOf its b \<and> ps_currentStock v = currentStock ps b"
    by auto
  show ?case
  proof (cases "obj_get ?P ?k")
    case None
    let ?init = "\<lparr>ps_name = si_name x, ps_sold = 0, ps_currentStock = currentStock ps ?k\<rparr>"
    have step: "foldl (addItem ps) [] (its @ [x]) = obj_addSold ?k (si_quantity x) (obj_set ?k ?init ?P)"
      using None own by (simp add: addItem_def currentStock_def)
    from None absent have new: "?k \<notin> si_barcode ` set its" by simp
    show ?thesis
      unfolding step
      using d absent vals new
      by (auto simp: keys_obj_addSold distinct_obj_set obj_get_addSold obj_get_set
          soldOf_snoc soldOf_absent)
  next
    case (Some v0)
    have step: "foldl (addItem ps) [] (its @ [x]) = obj_addSold ?k (si_quantity x) ?P"
      using Some by (simp add: addItem_def)
    from Some absent have old: "?k \<in> si_barcode ` set its"
      by (metis option.distinct(1))
    show ?thesis
      unfolding step
      using d absent vals old Some
      by (auto simp: keys_obj_addSold obj_get_addSold soldOf_snoc)
  qed
qed

lemma unitsSold_soldOf: "unitsSold window b = soldOf (windowItems window) b"
  by (simp add: unitsSold_def soldOf_def)

lemma productSalesOf_distinct:
  assumes "\<forall>item \<in> set (windowItems window). si_barcode item \<notin> set objectPrototypeKeys"
  shows "distinct (map fst (productSalesOf ps window))"
  using addItem_invariant [OF assms, of ps] by (simp add: productSalesOf_flat)

lemma productSalesOf_keys:
  assumes "\<forall>item \<in> set (windowItems window). si_barcode item \<notin> set objectPrototypeKeys"
  shows "fst ` set (productSalesOf ps window) = si_barcode ` set (windowItems window)"
proof -
  have "k \<in> fst ` set (productSalesOf ps window) \<longleftrightarrow> k \<in> si_barcode ` set (windowItems window)"
    for k
    using addItem_invariant [OF assms, of ps]
      obj_get_keys [of "productSalesOf ps window" k]
    by (simp add: productSalesOf_flat)
  then show ?thesis by blast
qed

lemma withVelocity_describes:
  assumes "ps_sold v = unitsSold window b" and "ps_currentStock v = currentStock ps b"
  shows "describes ps window (withVelocity v) b"
    and "needsRestock (withVelocity v) \<longleftrightarrow> flagged ps window b"
proof -
  show d: "describes ps window (withVelocity v) b"
    using assms by (simp add: describes_def withVelocity_def daysRemaining_def Let_def)
  then show "needsRestock (withVelocity v) \<longleftrightarrow> flagged ps window b"
    by (simp add: needsRestock_def flagged_def describes_def)
qed

lemma productSalesOf_entry:
  assumes "\<forall>item \<in> set (windowItems window). si_barcode item \<notin> set objectPrototypeKeys"
    and "e \<in> set (productSalesOf ps window)"
  shows "describes ps window (withVelocity (snd e)) (fst e)"
    and "needsRestock (withVelocity (snd e)) \<longleftrightarrow> flagged ps window (fst e)"
proof -
  have "obj_get (productSalesOf ps window) (fst e) = Some (snd e)"
    using map_of_is_SomeI [OF productSalesOf_distinct [OF assms(1)], of "fst e" "snd e" ps]
      assms(2)
    by (simp add: obj_get_def)
  with addItem_invariant [OF assms(1), of ps]
  have v: "ps_sold (snd e) = unitsSold window (fst e)"
    "ps_currentStock (snd e) = currentStock ps (fst e)"
    by (simp_all add: productSalesOf_flat unitsSold_soldOf)
  from withVelocity_describes [OF v]
  show "describes ps window (withVelocity (snd e)) (fst e)"
    and "needsRestock (withVelocity (snd e)) \<longleftrightarrow> flagged ps window (fst e)"
    by simp_all
qed

lemma suggestedRestock_double: "suggestedRestock e = 2 * rc_sold e"
proof -
  have "(of_int (rc_sold e) :: rat) * 2 = of_int (2 * rc_sold e)"
    by simp
  then show ?thesis
    by (simp only: suggestedRestock_def ceiling_of_int)
qed

text \<open>The list of the component, entry by entry with its barcode.\<close>

lemma insort_key_map:
  "insort_key f (g x) (map g xs) = map g (insort_key (\<lambda>y. f (g y)) x xs)"
  by (induction xs) simp_all

lemma sort_key_map: "sort_key f (map g xs) = map g (sort_key (\<lambda>y. f (g y)) xs)"
  by (induction xs) (simp_all add: insort_key_map)

lemma objectValues_entries: "objectValues obj = map snd (objectEntries obj)"
  by (simp add: objectValues_def objectEntries_def)

lemma mset_objectEntries: "mset (objectEntries obj) = mset obj"
proof -
  let ?Q = "\<lambda>e::string \<times> 'a. arrayIndex (fst e) = None"
  have "mset (objectEntries obj) = mset (filter ?Q obj) + mset (filter (\<lambda>e. \<not> ?Q e) obj)"
    by (simp add: objectEntries_def)
  also have "\<dots> = mset obj"
    by (rule mset_filter_split)
  finally show ?thesis .
qed

lemma recommendations_ranked:
  "recommendations ps window =
     map (\<lambda>e. withVelocity (snd e)) (take 5 (rankedEntries ps window))"
  by (simp add: recommendations_def rankedEntries_def flaggedEntries_def objectValues_entries
      filter_map sort_key_map take_map comp_def)

text \<open>
  Claim C9 (restock recommendations), as stated: the list holds every flagged product.
  The list is cut to its first five entries, so of six flagged products one is left
  out: here the product A1, sold once, is flagged, and no entry of the list has sold 1.
\<close>

theorem recommendations_cut_counterexample:
  "flaggedProducts example_catalog example_busy_window
     = [''A1'', ''A2'', ''A3'', ''A4'', ''A5'', ''A6''] \<and>
   unitsSold example_busy_window ''A1'' = 1 \<and>
   map rc_sold (recommendations example_catalog example_busy_window) = [6, 5, 4, 3, 2]"
  by (simp add: eval_defs objectPrototypeKeys_def)

text \<open>A product whose barcode names an inherited member is sold and flagged, and never
  listed.\<close>

lemma recommendations_inherited_key:
  "flaggedProducts [stocked ''constructor''] [saleOf 10 [lineOf (stocked ''constructor'') 1]]
     = [''constructor''] \<and>
   recommendations [stocked ''constructor''] [saleOf 10 [lineOf (stocked ''constructor'') 1]] = []"
  by (simp add: eval_defs objectPrototypeKeys_def)

text \<open>
  Claim C9, amended. Take a window in which no barcode names a member that objects
  inherit. The list describes, in order, the up to five flagged products (those sold
  in the window whose \<open>daysRemaining\<close> is below 14 or whose current stock is below 10)
  with the least \<open>daysRemaining\<close>: the flagged products split into the listed ones and
  the dropped ones, the entries of the list describe the listed ones one by one and
  suggest restocking 2 times the units sold in the window, the list is sorted
  ascending by \<open>daysRemaining\<close>, no dropped product has fewer days remaining than a
  listed one, there are as many listed ones as flagged products, but at most 5, and
  none is dropped when at most five are flagged.
\<close>

theorem recommendations_first_five:
  assumes own: "\<forall>item \<in> set (windowItems window). si_barcode item \<notin> set objectPrototypeKeys"
  shows "\<exists>listed dropped.
     mset (listed @ dropped) = mset (flaggedProducts ps window) \<and>
     length listed = min 5 (length (flaggedProducts ps window)) \<and>
     (length (flaggedProducts ps window) \<le> 5 \<longrightarrow> dropped = []) \<and>
     list_all2 (\<lambda>e b. describes ps window e b \<and> suggestedRestock e = 2 * unitsSold window b)
       (recommendations ps window) listed \<and>
     sorted (map rc_daysRemaining (recommendations ps window)) \<and>
     (\<forall>b \<in> set listed. \<forall>c \<in> set dropped.
         daysRemaining ps window b \<le> daysRemaining ps window c)"
proof -
  let ?P = "productSalesOf ps window"
  let ?F = "flaggedEntries ps window"
  let ?S = "rankedEntries ps window"
  let ?key = "\<lambda>e::string \<times> product_sales. rc_daysRemaining (withVelocity (snd e))"
  let ?g = "\<lambda>e::string \<times> product_sales. withVelocity (snd e)"
  let ?listed = "map fst (take 5 ?S)"
  let ?dropped = "map fst (drop 5 ?S)"
  let ?flagged = "flaggedProducts ps window"
  have setE: "set (objectEntries ?P) = set ?P"
    using mset_objectEntries [of ?P] by (metis set_mset_mset)
  have setF: "set ?F = {e \<in> set ?P. flagged ps window (fst e)}"
    using productSalesOf_entry(2) [OF own] by (auto simp: flaggedEntries_def setE)
  have setS: "set ?S = set ?F"
    by (simp add: rankedEntries_def)
  have inP: "e \<in> set ?P" if "e \<in> set ?S" for e
    using that setS setF by blast
  have key: "?key e = daysRemaining ps window (fst e)" if "e \<in> set ?S" for e
    using productSalesOf_entry(1) [OF own inP [OF that]] by (simp add: describes_def)
  \<comment> \<open>the barcodes of the ranked entries are the flagged products\<close>
  have "mset (map fst (objectEntries ?P)) = mset (map fst ?P)"
    by (simp add: mset_objectEntries)
  then have "distinct (map fst (objectEntries ?P))"
    using productSalesOf_distinct [OF own, of ps] mset_eq_imp_distinct_iff by blast
  then have dF: "distinct (map fst ?F)"
    unfolding flaggedEntries_def by (rule distinct_map_filter)
  have "set (map fst ?F) = {b \<in> fst ` set ?P. flagged ps window b}"
    unfolding set_map setF by blast
  also have "\<dots> = set ?flagged"
    by (simp add: productSalesOf_keys [OF own] flaggedProducts_def)
  finally have "set (map fst ?F) = set ?flagged" .
  moreover have "distinct ?flagged"
    by (simp add: flaggedProducts_def)
  ultimately have "mset (map fst ?F) = mset ?flagged"
    using dF set_eq_iff_mset_eq_distinct by blast
  moreover have "mset (map fst ?S) = mset (map fst ?F)"
    by (simp add: rankedEntries_def)
  ultimately have msetS: "mset (map fst ?S) = mset ?flagged"
    by simp
  have split: "?listed @ ?dropped = map fst ?S"
    by (simp flip: map_append)
  have partition: "mset (?listed @ ?dropped) = mset ?flagged"
    by (simp only: split msetS)
  have lenS: "length ?S = length ?flagged"
    using mset_eq_length [OF msetS] by simp
  have len: "length ?listed = min 5 (length ?flagged)"
    by (simp add: lenS min.commute)
  have none_dropped: "length ?flagged \<le> 5 \<longrightarrow> ?dropped = []"
    by (simp add: lenS)
  \<comment> \<open>the list, entry by entry\<close>
  have entry: "describes ps window (?g e) (fst e) \<and>
      suggestedRestock (?g e) = 2 * unitsSold window (fst e)" if "e \<in> set (take 5 ?S)" for e
  proof -
    from that have "e \<in> set ?S" by (rule in_set_takeD)
    from productSalesOf_entry(1) [OF own inP [OF this]]
    show ?thesis
      by (simp add: suggestedRestock_double describes_def)
  qed
  have described: "list_all2
      (\<lambda>e b. describes ps window e b \<and> suggestedRestock e = 2 * unitsSold window b)
      (recommendations ps window) ?listed"
    using entry
    by (simp add: recommendations_ranked list_all2_map1 list_all2_map2 list_all2_same)
  \<comment> \<open>the order\<close>
  have sortedS: "sorted (map ?key ?S)"
    unfolding rankedEntries_def by (rule sorted_sort_key)
  then have "sorted (take 5 (map ?key ?S))"
    by (rule sorted_wrt_take)
  then have ordered: "sorted (map rc_daysRemaining (recommendations ps window))"
    by (simp add: recommendations_ranked take_map comp_def)
  have "sorted (map ?key (take 5 ?S) @ map ?key (drop 5 ?S))"
    using sortedS by (simp flip: map_append)
  then have cut: "\<forall>x \<in> set (take 5 ?S). \<forall>y \<in> set (drop 5 ?S). ?key x \<le> ?key y"
    by (simp add: sorted_append)
  have least: "daysRemaining ps window b \<le> daysRemaining ps window c"
    if "b \<in> set ?listed" and "c \<in> set ?dropped" for b c
  proof -
    from that obtain x y where x: "x \<in> set (take 5 ?S)" "b = fst x"
      and y: "y \<in> set (drop 5 ?S)" "c = fst y"
      by auto
    from x(1) have xs: "x \<in> set ?S" by (rule in_set_takeD)
    from y(1) have ys: "y \<in> set ?S" by (rule in_set_dropD)
    from cut x(1) y(1) have "?key x \<le> ?key y" by blast
    with key [OF xs] key [OF ys] x(2) y(2) show ?thesis by simp
  qed
  show ?thesis
    using partition len none_dropped described ordered least
    by (intro exI [of _ ?listed] exI [of _ ?dropped]) blast
qed

lemma example_flagged:
  "flaggedProducts (products example_storage) example_window = [''456'', ''123'']"
  by (simp add: eval_defs)

lemma example_window_own:
  "\<forall>item \<in> set (windowItems example_window). si_barcode item \<notin> set objectPrototypeKeys"
  by (simp add: eval_defs objectPrototypeKeys_def)

theorem recommendations_first_five_witness:
  "length (recommendations (products example_storage) example_window) = 2 \<and>
   sorted (map rc_daysRemaining (recommendations (products example_storage) example_window)) \<and>
   (\<exists>listed. mset listed = mset [''456'', ''123''] \<and>
      list_all2 (describes (products example_storage) example_window)
        (recommendations (products example_storage) example_window) listed)"
proof -
  from recommendations_first_five [OF example_window_own, of "products example_storage"]
  obtain listed dropped where
    m: "mset (listed @ dropped) = mset [''456'', ''123'']"
    and n: "length listed = 2"
    and d: "dropped = []"
    and l: "list_all2 (\<lambda>e b. describes (products example_storage) example_window e b \<and>
              suggestedRestock e = 2 * unitsSold example_window b)
            (recommendations (products example_storage) example_window) listed"
    and s: "sorted (map rc_daysRemaining
              (recommendations (products example_storage) example_window))"
    by (auto simp: example_flagged)
  from l have "list_all2 (describes (products example_storage) example_window)
      (recommendations (products example_storage) example_window) listed"
    by (rule list_all2_mono) simp
  moreover from l n have "length (recommendations (products example_storage) example_window) = 2"
    by (simp add: list_all2_lengthD)
  ultimately show ?thesis
    using m d s by auto
qed

end
